(* ===== verification/Prelude.thy ===== *)
theory Prelude
  imports
    Main
    "HOL-Library.Word"
    "HOL-Library.Multiset"
    "HOL-Library.Sublist"
    "HOL-Library.Char_ord"
    "HOL-Library.List_Lexorder"
begin

text \<open>
  Shared vocabulary of the linter development: the collections of rewrite rules the
  component theories fill, the one list combinator the whole development is phrased
  in (\<open>first_some\<close>, the first \<open>Some\<close> of a function over a list, which is how every
  fail-fast loop of the program reports its error), and the lemmas on prefixes and
  suffixes of strings that the regular-expression proofs share.
  Go strings are byte strings and are compared byte-wise; \<open>string\<close> (a list of 8-bit
  \<open>char\<close>) with the lexicographic order of \<open>HOL-Library.List_Lexorder\<close> over
  \<open>HOL-Library.Char_ord\<close> is exactly that.
\<close>

named_theorems regex_simps "rules that compute the matcher on the linters' patterns"
named_theorems linter_defs "definitions of the linter predicates and the registry"

type_synonym go_string = string

section \<open>The first failure of a fail-fast loop\<close>

fun first_some :: "('a \<Rightarrow> 'b option) \<Rightarrow> 'a list \<Rightarrow> 'b option" where
  "first_some f [] = None"
| "first_some f (x # xs) = (case f x of None \<Rightarrow> first_some f xs | Some e \<Rightarrow> Some e)"

lemma first_some_append [simp]:
  "first_some f (xs @ ys) = (case first_some f xs of None \<Rightarrow> first_some f ys | Some e \<Rightarrow> Some e)"
  by (induction xs) (auto split: option.split)

lemma first_some_None_iff [simp]:
  "first_some f xs = None \<longleftrightarrow> (\<forall>x \<in> set xs. f x = None)"
  by (induction xs) (auto split: option.split)

lemma first_some_SomeD:
  "first_some f xs = Some e \<Longrightarrow>
     \<exists>ys x zs. xs = ys @ x # zs \<and> (\<forall>y \<in> set ys. f y = None) \<and> f x = Some e"
proof (induction xs)
  case Nil
  then show ?case by simp
next
  case (Cons a xs)
  show ?case
  proof (cases "f a")
    case None
    with Cons.prems have "first_some f xs = Some e" by simp
    then obtain ys x zs where "xs = ys @ x # zs" "\<forall>y \<in> set ys. f y = None" "f x = Some e"
      using Cons.IH by blast
    with None show ?thesis by (metis Cons_eq_appendI set_ConsD)
  next
    case (Some e')
    with Cons.prems show ?thesis by (intro exI [of _ "[]"]) auto
  qed
qed

lemma first_some_SomeI:
  "(\<forall>y \<in> set ys. f y = None) \<Longrightarrow> f x = Some e \<Longrightarrow> first_some f (ys @ x # zs) = Some e"
  by (induction ys) auto

lemma first_some_Some_iff:
  "first_some f xs = Some e \<longleftrightarrow>
     (\<exists>ys x zs. xs = ys @ x # zs \<and> (\<forall>y \<in> set ys. f y = None) \<and> f x = Some e)"
  by (blast intro: first_some_SomeI dest: first_some_SomeD)

lemma first_some_cong:
  "(\<And>x. x \<in> set xs \<Longrightarrow> f x = g x) \<Longrightarrow> first_some f xs = first_some g xs"
  by (induction xs) (simp_all split: option.split del: first_some_None_iff)

lemma first_some_concat_map:
  "first_some f (concat (map g xs)) = first_some (\<lambda>x. first_some f (g x)) xs"
  by (induction xs) (auto split: option.split simp del: first_some_None_iff)

lemma first_some_map: "first_some f (map g xs) = first_some (f \<circ> g) xs"
  by (induction xs) (auto split: option.split simp del: first_some_None_iff)

lemma ball_pairs_cong:
  "(\<And>a b. a \<in> fst ` set xs \<Longrightarrow> P a b \<longleftrightarrow> Q a b) \<Longrightarrow>
     (\<forall>(a, b) \<in> set xs. P a b) \<longleftrightarrow> (\<forall>(a, b) \<in> set xs. Q a b)"
  by force

lemma case_option_Some_None_id [simp]: "(case x of None \<Rightarrow> None | Some e \<Rightarrow> Some e) = x"
  by (cases x) simp_all

lemma concat_map_butlast_last:
  "xs \<noteq> [] \<Longrightarrow> concat (map f (butlast xs)) @ f (last xs) = concat (map f xs)"
  by (induction xs) auto

lemma list_all_butlast_last:
  "xs \<noteq> [] \<Longrightarrow> list_all P xs \<longleftrightarrow> list_all P (butlast xs) \<and> P (last xs)"
  by (induction xs) auto

lemma insort_key_map:
  "(\<And>y. f (g y) = f y) \<Longrightarrow> insort_key f (g x) (map g ys) = map g (insort_key f x ys)"
  by (induction ys) auto

lemma sort_key_map:
  "(\<And>y. f (g y) = f y) \<Longrightarrow> sort_key f (map g xs) = map g (sort_key f xs)"
  by (induction xs) (simp_all add: insort_key_map)

section \<open>Prefixes of strings\<close>

lemma sublist_middle: "s = a @ x @ b \<Longrightarrow> sublist x s"
  by simp


lemma prefix_append_iff_drop:
  "prefix (u @ v) s \<longleftrightarrow> prefix u s \<and> prefix v (drop (length u) s)"
  by (auto simp: prefix_def)

lemma prefix_Cons_iff_nth:
  "prefix (c # w) (drop i s) \<longleftrightarrow> i < length s \<and> s ! i = c \<and> prefix w (drop (Suc i) s)"
  by (metis Cons_nth_drop_Suc Cons_prefix_Cons drop_eq_Nil2 linorder_not_le
      list.discI prefix_Nil)

lemma prefix_drop_Cons_less: "prefix (c # w) (drop i s) \<Longrightarrow> i < length s"
  by (simp add: prefix_Cons_iff_nth)

lemma prefix_drop_Cons_le_conj:
  "(i \<le> length s \<and> prefix (c # w) (drop i s)) \<longleftrightarrow> prefix (c # w) (drop i s)"
  "(i \<le> length s \<and> prefix (c # w) (drop i s) \<and> P) \<longleftrightarrow> prefix (c # w) (drop i s) \<and> P"
  by (auto dest: prefix_drop_Cons_less)

lemma prefix_drop_length:
  "prefix w (drop i s) \<Longrightarrow> i \<le> length s \<Longrightarrow> i + length w \<le> length s"
  by (drule prefix_length_le) simp

lemma prefix_drop_suffix_end:
  "prefix w (drop i s) \<and> i + length w = length s \<longleftrightarrow> i \<le> length s \<and> drop i s = w"
proof
  assume a: "prefix w (drop i s) \<and> i + length w = length s"
  then obtain zs where zs: "drop i s = w @ zs" by (auto simp: prefix_def)
  then have "length s - i = length w + length zs" by (metis length_append length_drop)
  with a have "length zs = 0" by linarith
  with a zs show "i \<le> length s \<and> drop i s = w" by simp
qed auto

lemma suffix_iff_drop:
  "suffix w s \<longleftrightarrow> length w \<le> length s \<and> drop (length s - length w) s = w"
  by (metis append_take_drop_id same_append_eq suffix_drop suffix_length_le suffix_take)

end
