(* ===== verification/Regexp.thy ===== *)
theory Regexp
  imports Prelude
begin

text \<open>
  The part of Go's \<open>regexp\<close> package the linters use: \<open>regexp.MustCompile\<close> of a
  pattern and \<open>(*Regexp).MatchString\<close>. A compiled pattern is its syntax tree, with
  the constructors of Go's \<open>regexp/syntax\<close> operators that the four patterns of
  \<open>linter.go\<close> contain (\<open>OpLiteral\<close>, \<open>OpConcat\<close>, \<open>OpAlternate\<close>, \<open>OpQuest\<close>,
  \<open>OpCapture\<close>, \<open>OpBeginText\<close>, \<open>OpEndText\<close>, \<open>OpEmptyMatch\<close>); Go's n-ary
  concatenation of a list of expressions is \<open>seq_of\<close>, and a multi-character literal
  is \<open>lits\<close>. Without the \<open>(?m)\<close> flag, \<open>^\<close> is \<open>OpBeginText\<close> and
  \<open>$\<close> is \<open>OpEndText\<close>: they match only at the start and at the very end of the
  input.

  Two semantics are given. \<open>re_match r s i j\<close> is the declarative one (the pattern
  matches the bytes \<open>s[i:j]\<close>), an inductive relation with one rule per operator.
  \<open>ends r s i\<close> is an executable matcher that lists the end positions of the
  matches starting at \<open>i\<close>. \<open>MatchString\<close> is unanchored search, as in Go: some
  start position has a match. \<open>ends_correct\<close> shows that the matcher computes the
  relation, so that facts about \<open>MatchString\<close> are facts about matching.
\<close>

datatype regex =
    Lit char
  | Concat regex regex
  | Alternate regex regex
  | Quest regex
  | Capture regex
  | BeginText
  | EndText
  | EmptyMatch

fun lits :: "string \<Rightarrow> regex" where
  "lits [] = EmptyMatch"
| "lits (c # cs) = Concat (Lit c) (lits cs)"

definition seq_of :: "regex list \<Rightarrow> regex" where
  "seq_of xs = foldr Concat xs EmptyMatch"

lemma seq_of_simps [simp]: "seq_of [] = EmptyMatch" "seq_of (x # xs) = Concat x (seq_of xs)"
  by (simp_all add: seq_of_def)

section \<open>Printing: the pattern string of a syntax tree\<close>

definition meta_chars :: "char list" where
  "meta_chars = [CHR 0x5C, CHR ''.'', CHR ''+'', CHR ''*'', CHR ''?'', CHR ''('', CHR '')'',
     CHR ''|'', CHR ''['', CHR '']'', CHR ''{'', CHR ''}'', CHR ''^'', CHR ''$'']"

fun print_regex :: "regex \<Rightarrow> string" where
  "print_regex (Lit c) = (if c \<in> set meta_chars then [CHR 0x5C, c] else [c])"
| "print_regex (Concat r q) = print_regex r @ print_regex q"
| "print_regex (Alternate r q) = print_regex r @ ''|'' @ print_regex q"
| "print_regex (Quest r) = print_regex r @ ''?''"
| "print_regex (Capture r) = ''('' @ print_regex r @ '')''"
| "print_regex BeginText = ''^''"
| "print_regex EndText = ''$''"
| "print_regex EmptyMatch = ''''"

section \<open>Declarative semantics\<close>

inductive re_match :: "regex \<Rightarrow> string \<Rightarrow> nat \<Rightarrow> nat \<Rightarrow> bool" where
  lit: "i < length s \<Longrightarrow> s ! i = c \<Longrightarrow> re_match (Lit c) s i (Suc i)"
| concat: "re_match r s i k \<Longrightarrow> re_match q s k j \<Longrightarrow> re_match (Concat r q) s i j"
| alt_left: "re_match r s i j \<Longrightarrow> re_match (Alternate r q) s i j"
| alt_right: "re_match q s i j \<Longrightarrow> re_match (Alternate r q) s i j"
| quest_one: "re_match r s i j \<Longrightarrow> re_match (Quest r) s i j"
| quest_zero: "i \<le> length s \<Longrightarrow> re_match (Quest r) s i i"
| capture: "re_match r s i j \<Longrightarrow> re_match (Capture r) s i j"
| begin_text: "re_match BeginText s 0 0"
| end_text: "re_match EndText s (length s) (length s)"
| empty: "i \<le> length s \<Longrightarrow> re_match EmptyMatch s i i"

inductive_simps re_match_Lit: "re_match (Lit c) s i j"
inductive_simps re_match_Concat: "re_match (Concat r q) s i j"
inductive_simps re_match_Alternate: "re_match (Alternate r q) s i j"
inductive_simps re_match_Quest: "re_match (Quest r) s i j"
inductive_simps re_match_Capture: "re_match (Capture r) s i j"
inductive_simps re_match_BeginText: "re_match BeginText s i j"
inductive_simps re_match_EndText: "re_match EndText s i j"
inductive_simps re_match_EmptyMatch: "re_match EmptyMatch s i j"

lemmas re_match_simps = re_match_Lit re_match_Concat re_match_Alternate re_match_Quest
  re_match_Capture re_match_BeginText re_match_EndText re_match_EmptyMatch

section \<open>The executable matcher\<close>

fun ends :: "regex \<Rightarrow> string \<Rightarrow> nat \<Rightarrow> nat list" where
  "ends (Lit c) s i = (if i < length s \<and> s ! i = c then [Suc i] else [])"
| "ends (Concat r q) s i = concat (map (\<lambda>k. ends q s k) (ends r s i))"
| "ends (Alternate r q) s i = ends r s i @ ends q s i"
| "ends (Quest r) s i = ends r s i @ (if i \<le> length s then [i] else [])"
| "ends (Capture r) s i = ends r s i"
| "ends BeginText s i = (if i = 0 then [0] else [])"
| "ends EndText s i = (if i = length s then [i] else [])"
| "ends EmptyMatch s i = (if i \<le> length s then [i] else [])"

definition MatchString :: "regex \<Rightarrow> string \<Rightarrow> bool" where
  "MatchString re s = list_ex (\<lambda>i. ends re s i \<noteq> []) [0..<Suc (length s)]"

section \<open>The matcher computes the declarative semantics\<close>

lemma re_match_bounds: "re_match r s i j \<Longrightarrow> i \<le> j \<and> j \<le> length s"
  by (induction rule: re_match.induct) auto

theorem ends_correct: "j \<in> set (ends r s i) \<longleftrightarrow> re_match r s i j"
  by (induction r arbitrary: i j) (auto simp: re_match_simps)


lemma nonempty_iff_ex_mem: "xs \<noteq> [] \<longleftrightarrow> (\<exists>j. j \<in> set xs)"
  by (cases xs) auto

lemma MatchString_ends:
  "MatchString re s \<longleftrightarrow> (\<exists>i \<le> length s. \<exists>j. j \<in> set (ends re s i))"
proof -
  have "MatchString re s \<longleftrightarrow> (\<exists>i \<le> length s. ends re s i \<noteq> [])"
    by (simp add: MatchString_def list_ex_iff del: upt_Suc) (metis atLeastLessThan_iff less_Suc_eq_le zero_le)
  then show ?thesis by (simp add: nonempty_iff_ex_mem)
qed

theorem MatchString_iff_re_match: "MatchString re s \<longleftrightarrow> (\<exists>i j. re_match re s i j)"
proof -
  have "MatchString re s \<longleftrightarrow> (\<exists>i \<le> length s. \<exists>j. re_match re s i j)"
    by (simp add: MatchString_ends ends_correct)
  also have "\<dots> \<longleftrightarrow> (\<exists>i j. re_match re s i j)"
    by (blast dest: re_match_bounds intro: order_trans)
  finally show ?thesis .
qed

section \<open>Literal strings, anchored at the start or at the end\<close>

lemma ends_lits [regex_simps]:
  "j \<in> set (ends (lits w) s i) \<longleftrightarrow> i \<le> length s \<and> prefix w (drop i s) \<and> j = i + length w"
proof (induction w arbitrary: i)
  case Nil
  then show ?case by auto
next
  case (Cons c w)
  show ?case
    by (auto simp: Cons prefix_Cons_iff_nth)
qed

lemma ends_Concat_iff:
  "j \<in> set (ends (Concat r q) s i) \<longleftrightarrow> (\<exists>k \<in> set (ends r s i). j \<in> set (ends q s k))"
  by auto

lemma MatchString_BeginText:
  "MatchString (Concat BeginText r) s \<longleftrightarrow> (\<exists>j. j \<in> set (ends r s 0))"
  by (auto simp: MatchString_ends)

theorem MatchString_prefix:
  "MatchString (Concat BeginText (lits w)) s \<longleftrightarrow> prefix w s"
  by (simp add: MatchString_BeginText ends_lits)

lemma ends_start_bound: "j \<in> set (ends r s i) \<Longrightarrow> i \<le> length s"
  using re_match_bounds by (fastforce simp: ends_correct)

lemma ends_Lits_then:
  "j \<in> set (ends (foldr Concat (map Lit w) q) s i) \<longleftrightarrow>
     i \<le> length s \<and> prefix w (drop i s) \<and> j \<in> set (ends q s (i + length w))"
proof (induction w arbitrary: i)
  case Nil
  then show ?case by (auto dest: ends_start_bound)
next
  case (Cons c w)
  show ?case
    by (auto simp: Cons prefix_Cons_iff_nth)
qed

lemma ex_prefix_end_iff_suffix:
  "(\<exists>i \<le> length s. prefix w (drop i s) \<and> i + length w = length s) \<longleftrightarrow> suffix w s"
proof -
  have "(\<exists>i \<le> length s. prefix w (drop i s) \<and> i + length w = length s) \<longleftrightarrow>
      (\<exists>i \<le> length s. drop i s = w)"
    using prefix_drop_suffix_end by blast
  also have "\<dots> \<longleftrightarrow> suffix w s"
  proof
    assume "\<exists>i \<le> length s. drop i s = w"
    then show "suffix w s" using suffix_drop by blast
  next
    assume "suffix w s"
    then show "\<exists>i \<le> length s. drop i s = w"
      by (auto simp: suffix_iff_drop intro: exI [of _ "length s - length w"])
  qed
  finally show ?thesis .
qed

theorem MatchString_suffix:
  "MatchString (seq_of (map Lit w @ [EndText])) s \<longleftrightarrow> suffix w s"
proof -
  have "MatchString (seq_of (map Lit w @ [EndText])) s \<longleftrightarrow>
      (\<exists>i \<le> length s. prefix w (drop i s) \<and> i + length w = length s)"
    by (auto simp: MatchString_ends seq_of_def ends_Lits_then)
  then show ?thesis by (simp only: ex_prefix_end_iff_suffix)
qed

section \<open>Rules that distribute a concatenation over its first operand\<close>

lemma ends_Concat_lits [regex_simps]:
  "j \<in> set (ends (Concat (lits u) q) s i) \<longleftrightarrow>
     i \<le> length s \<and> prefix u (drop i s) \<and> j \<in> set (ends q s (i + length u))"
  by (auto simp: ends_lits)

lemma ends_Concat_Quest [regex_simps]:
  "j \<in> set (ends (Concat (Quest r) q) s i) \<longleftrightarrow>
     j \<in> set (ends (Concat r q) s i) \<or> (i \<le> length s \<and> j \<in> set (ends q s i))"
  by auto

lemma ends_Concat_Capture [regex_simps]:
  "j \<in> set (ends (Concat (Capture r) q) s i) \<longleftrightarrow> j \<in> set (ends (Concat r q) s i)"
  by simp

lemma ends_Concat_Alternate [regex_simps]:
  "j \<in> set (ends (Concat (Alternate a b) q) s i) \<longleftrightarrow>
     j \<in> set (ends (Concat a q) s i) \<or> j \<in> set (ends (Concat b q) s i)"
  by auto

lemma ends_Concat_assoc [regex_simps]:
  "j \<in> set (ends (Concat (Concat a b) c) s i) \<longleftrightarrow> j \<in> set (ends (Concat a (Concat b c)) s i)"
  by auto

lemma prefix_drop_drop_iff:
  "prefix u (drop i s) \<and> prefix v (drop (i + length u) s) \<longleftrightarrow> prefix (u @ v) (drop i s)"
  by (simp add: prefix_append_iff_drop add.commute)

lemma prefix_append3_iff_drop:
  "prefix (u @ v @ w) s \<longleftrightarrow>
     prefix u s \<and> prefix v (drop (length u) s) \<and> prefix w (drop (length u + length v) s)"
  by (simp add: prefix_append_iff_drop add.commute)

lemma ends_lits_append:
  "j \<in> set (ends (Concat (lits u) (lits v)) s i) \<longleftrightarrow> j \<in> set (ends (lits (u @ v)) s i)"
proof -
  have "j \<in> set (ends (Concat (lits u) (lits v)) s i) \<longleftrightarrow>
      i \<le> length s \<and> prefix u (drop i s) \<and> prefix v (drop (i + length u) s) \<and>
      j = i + length u + length v"
    by (simp only: ends_Concat_lits ends_lits) (auto dest: prefix_drop_length)
  then show ?thesis
    using prefix_drop_drop_iff [of u i s v] by (simp only: ends_lits length_append add.assoc) blast
qed

end
