(* ===== verification/RegexpSyntax.thy ===== *)
theory RegexpSyntax
  imports Regexp
begin

text \<open>
  The parser of Go's \<open>regexp/syntax\<close> package, for the syntax the linters' patterns
  are written in: literal characters, \<open>\\\<close>-escaped metacharacters, concatenation,
  alternation \<open>|\<close>, the capturing group \<open>( )\<close>, the repetition \<open>?\<close> and the
  anchors \<open>^\<close> and \<open>$\<close>. \<open>regexp.MustCompile\<close> is \<open>MustCompile\<close>, and
  \<open>regexp.Compile\<close> is \<open>compile\<close>, which returns \<open>None\<close> where Go reports a syntax
  error (an unbalanced parenthesis, a \<open>?\<close> with nothing to repeat, a trailing
  backslash) and also where the pattern uses syntax outside this subset (character
  classes, \<open>.\<close>, \<open>*\<close>, \<open>+\<close>, counted and non-greedy repetition, flags, escapes of
  non-metacharacters, and bytes outside ASCII, which Go decodes as UTF-8).

  Go's \<open>parse\<close> loop reads the pattern one character at a time, keeping a stack of
  parsed expressions with marker entries for an open parenthesis and for a vertical
  bar. \<open>parse_loop\<close> is that loop with the stack grouped into frames, one per open
  parenthesis: a frame holds the alternatives already closed by a \<open>|\<close> and the
  concatenation being built. \<open>)\<close> closes the top frame into a capture group
  (\<open>parseRightParen\<close>), \<open>|\<close> closes the current concatenation
  (\<open>parseVerticalBar\<close>), \<open>?\<close> wraps the last atom (\<open>repeat\<close>). The tree built is
  the parse tree before Go's simplification passes (literal-string merging, common
  prefix factoring), which do not change what a pattern matches.

  \<open>compile_print\<close> and \<open>print_compile\<close> show that printing and compiling are
  inverse on the well-formed trees (\<open>wf_alt\<close>), and \<open>compile_wf\<close> that every
  compiled pattern is well-formed.
\<close>

section \<open>The parse loop\<close>

type_synonym frame = "regex list \<times> regex list"

fun alt_of :: "regex list \<Rightarrow> regex" where
  "alt_of [] = EmptyMatch"
| "alt_of [r] = r"
| "alt_of (r # rs) = Alternate r (alt_of rs)"

definition close_frame :: "frame \<Rightarrow> regex" where
  "close_frame f = alt_of (fst f @ [seq_of (snd f)])"

fun push_atom :: "regex \<Rightarrow> frame list \<Rightarrow> frame list" where
  "push_atom r [] = []"
| "push_atom r ((alts, cur) # fs) = (alts, cur @ [r]) # fs"

fun repeatable :: "regex \<Rightarrow> bool" where
  "repeatable (Lit c) = True"
| "repeatable (Capture r) = True"
| "repeatable _ = False"

fun parse_loop :: "frame list \<Rightarrow> string \<Rightarrow> frame list option" where
  "parse_loop fs [] = Some fs"
| "parse_loop fs (c # cs) =
     (if c = CHR ''('' then parse_loop (([], []) # fs) cs
      else if c = CHR '')'' then
        (case fs of
           f # p # fs' \<Rightarrow> parse_loop (push_atom (Capture (close_frame f)) (p # fs')) cs
         | _ \<Rightarrow> None)
      else if c = CHR ''|'' then
        (case fs of
           (alts, cur) # fs' \<Rightarrow> parse_loop ((alts @ [seq_of cur], []) # fs') cs
         | [] \<Rightarrow> None)
      else if c = CHR ''?'' then
        (case fs of
           (alts, cur) # fs' \<Rightarrow>
             (if cur \<noteq> [] \<and> repeatable (last cur)
              then parse_loop ((alts, butlast cur @ [Quest (last cur)]) # fs') cs else None)
         | [] \<Rightarrow> None)
      else if c = CHR ''^'' then parse_loop (push_atom BeginText fs) cs
      else if c = CHR ''$'' then parse_loop (push_atom EndText fs) cs
      else if c = CHR 0x5C then
        (case cs of
           d # cs' \<Rightarrow> (if d \<in> set meta_chars then parse_loop (push_atom (Lit d) fs) cs' else None)
         | [] \<Rightarrow> None)
      else if c \<in> set meta_chars \<or> CHR 0x80 \<le> c then None
      else parse_loop (push_atom (Lit c) fs) cs)"

definition compile :: "string \<Rightarrow> regex option" where
  "compile s = (case parse_loop [([], [])] s of Some [f] \<Rightarrow> Some (close_frame f) | _ \<Rightarrow> None)"

definition MustCompile :: "string \<Rightarrow> regex" where
  "MustCompile s = (case compile s of Some r \<Rightarrow> r | None \<Rightarrow> undefined)"

section \<open>Well-formed syntax trees\<close>

fun wf_alt :: "regex \<Rightarrow> bool" and wf_seq :: "regex \<Rightarrow> bool"
  and wf_piece :: "regex \<Rightarrow> bool" and wf_atom :: "regex \<Rightarrow> bool" where
  "wf_alt (Alternate a b) = (wf_seq a \<and> wf_alt b)"
| "wf_alt r = wf_seq r"
| "wf_seq EmptyMatch = True"
| "wf_seq (Concat x r) = (wf_piece x \<and> wf_seq r)"
| "wf_seq _ = False"
| "wf_piece (Quest x) = wf_atom x"
| "wf_piece BeginText = True"
| "wf_piece EndText = True"
| "wf_piece x = wf_atom x"
| "wf_atom (Lit c) = (c < CHR 0x80)"
| "wf_atom (Capture r) = wf_alt r"
| "wf_atom _ = False"

fun seq_items :: "regex \<Rightarrow> regex list" where
  "seq_items (Concat x r) = x # seq_items r"
| "seq_items _ = []"

fun alt_items :: "regex \<Rightarrow> regex list" where
  "alt_items (Alternate a b) = a # alt_items b"
| "alt_items r = [r]"

section \<open>Printing then compiling gives the tree back\<close>

lemma seq_of_items: "wf_seq s \<Longrightarrow> seq_of (seq_items s) = s"
  by (induction s) simp_all

lemma alt_items_nonempty [simp]: "alt_items a \<noteq> []"
  by (cases a) simp_all

lemma alt_of_Cons_nonempty: "rs \<noteq> [] \<Longrightarrow> alt_of (r # rs) = Alternate r (alt_of rs)"
  by (cases rs) simp_all

lemma alt_of_items: "alt_of (alt_items a) = a"
  by (induction a) (simp_all add: alt_of_Cons_nonempty)

lemma wf_atom_repeatable: "wf_atom x \<Longrightarrow> repeatable x"
  by (cases x) simp_all

lemma wf_atom_piece: "wf_atom x \<Longrightarrow> wf_piece x"
  by (cases x) simp_all

lemma wf_alt_last_seq: "wf_alt a \<Longrightarrow> wf_seq (last (alt_items a))"
  by (induction a) simp_all

lemma close_frame_items:
  "wf_alt a \<Longrightarrow> close_frame (butlast (alt_items a), seq_items (last (alt_items a))) = a"
  by (simp add: close_frame_def seq_of_items wf_alt_last_seq alt_of_items)

lemma parse_loop_print:
  "(wf_piece x \<longrightarrow> parse_loop ((alts, cur) # fs) (print_regex x @ rest) =
       parse_loop ((alts, cur @ [x]) # fs) rest) \<and>
   (wf_seq x \<longrightarrow> parse_loop ((alts, cur) # fs) (print_regex x @ rest) =
       parse_loop ((alts, cur @ seq_items x) # fs) rest) \<and>
   (wf_alt x \<longrightarrow> parse_loop ((alts, []) # fs) (print_regex x @ rest) =
       parse_loop ((alts @ butlast (alt_items x), seq_items (last (alt_items x))) # fs) rest)"
proof (induction x arbitrary: alts cur fs rest)
  case (Lit c)
  then show ?case by (auto simp: meta_chars_def)
next
  case (Concat x r)
  then show ?case by simp
next
  case (Alternate a b)
  then show ?case by (simp add: seq_of_items)
next
  case (Quest x)
  then show ?case by (simp add: wf_atom_repeatable wf_atom_piece)
next
  case (Capture r)
  then show ?case by (simp add: close_frame_items)
qed simp_all

theorem compile_print: "wf_alt r \<Longrightarrow> compile (print_regex r) = Some r"
  using parse_loop_print [of r "[]" "[]" "[]" "[]"]
  by (simp add: compile_def close_frame_items)

section \<open>An invariant principle for the parse loop\<close>

lemma meta_chars_ascii: "c \<in> set meta_chars \<Longrightarrow> c < CHR 0x80"
  by (auto simp: meta_chars_def)

lemma parse_loop_invariant:
  assumes "parse_loop fs s = Some fs'" and "I fs u"
    and open_: "\<And>fs u. I fs u \<Longrightarrow> I (([], []) # fs) (u @ ''('')"
    and close: "\<And>f p fs u. I (f # p # fs) u \<Longrightarrow>
                  I (push_atom (Capture (close_frame f)) (p # fs)) (u @ '')'')"
    and bar: "\<And>alts cur fs u. I ((alts, cur) # fs) u \<Longrightarrow>
                I ((alts @ [seq_of cur], []) # fs) (u @ ''|'')"
    and quest: "\<And>alts cur fs u. I ((alts, cur) # fs) u \<Longrightarrow> cur \<noteq> [] \<Longrightarrow>
                  repeatable (last cur) \<Longrightarrow>
                  I ((alts, butlast cur @ [Quest (last cur)]) # fs) (u @ ''?'')"
    and atom: "\<And>fs u x. I fs u \<Longrightarrow> wf_piece x \<Longrightarrow>
                 (\<exists>c. x = Lit c) \<or> x = BeginText \<or> x = EndText \<Longrightarrow>
                 I (push_atom x fs) (u @ print_regex x)"
  shows "I fs' (u @ s)"
  using assms(1,2)
proof (induction fs s arbitrary: u rule: parse_loop.induct)
  case (1 fs)
  then show ?case by simp
next
  case (2 fs c cs)
  show ?case
  proof (cases "c = CHR ''('' \<or> c = CHR '')'' \<or> c = CHR ''|'' \<or> c = CHR ''?''")
    case True
    then consider "c = CHR ''(''" | "c = CHR '')''" | "c = CHR ''|''" | "c = CHR ''?''" by blast
    then show ?thesis
    proof cases
      case 1
      with "2.prems" show ?thesis using "2.IH"(1) [of "u @ ''(''"] open_ by simp
    next
      case 2
      with "2.prems" obtain f p rest where "fs = f # p # rest"
        by (auto split: list.splits)
      with 2 show ?thesis using "2.prems" "2.IH"(2) [of _ _ _ _ "u @ '')''"] close by simp
    next
      case 3
      with "2.prems" obtain alts cur rest where "fs = (alts, cur) # rest"
        by (auto split: list.splits)
      with 3 show ?thesis using "2.prems" "2.IH"(3) [of _ _ _ _ "u @ ''|''"] bar by simp
    next
      case 4
      with "2.prems" obtain alts cur rest where fs: "fs = (alts, cur) # rest"
        and cur: "cur \<noteq> []" "repeatable (last cur)"
        by (auto split: list.splits if_splits)
      with 4 show ?thesis using "2.prems" "2.IH"(4) [of _ _ _ _ "u @ ''?''"] quest by simp
    qed
  next
    case False
    then have ns: "c \<noteq> CHR ''(''" "c \<noteq> CHR '')''" "c \<noteq> CHR ''|''" "c \<noteq> CHR ''?''" by simp_all
    consider "c = CHR ''^''" | "c = CHR ''$''" | "c = CHR 0x5C"
      | "c \<noteq> CHR ''^''" "c \<noteq> CHR ''$''" "c \<noteq> CHR 0x5C" by blast
    then show ?thesis
    proof cases
      case 1
      with ns show ?thesis
        using "2.prems" "2.IH"(5) [of "u @ ''^''"] atom [of fs u BeginText] by simp
    next
      case 2
      with ns show ?thesis
        using "2.prems" "2.IH"(6) [of "u @ ''$''"] atom [of fs u EndText] by simp
    next
      case 3
      with ns "2.prems" obtain d cs' where cs: "cs = d # cs'" and d: "d \<in> set meta_chars"
        and run: "parse_loop (push_atom (Lit d) fs) cs' = Some fs'"
        by (auto split: list.splits if_splits)
      have "I (push_atom (Lit d) fs) (u @ print_regex (Lit d))"
        using atom [OF "2.prems"(2), of "Lit d"] d meta_chars_ascii by simp
      then show ?thesis using "2.IH"(7) [of d cs' "u @ print_regex (Lit d)"] ns 3 cs d run by simp
    next
      case 4
      with ns "2.prems" have c: "c \<notin> set meta_chars" and lt: "c < CHR 0x80"
        and run: "parse_loop (push_atom (Lit c) fs) cs = Some fs'"
        by (auto simp: not_le split: if_splits)
      have "I (push_atom (Lit c) fs) (u @ print_regex (Lit c))"
        using atom [OF "2.prems"(2), of "Lit c"] lt by simp
      then show ?thesis using "2.IH"(8) [of "u @ print_regex (Lit c)"] ns 4 c lt run by simp
    qed
  qed
qed

section \<open>Compiling then printing gives the pattern back\<close>

definition print_frame :: "frame \<Rightarrow> string" where
  "print_frame f = concat (map (\<lambda>a. print_regex a @ ''|'') (fst f)) @ concat (map print_regex (snd f))"

fun print_stack :: "frame list \<Rightarrow> string" where
  "print_stack [] = []"
| "print_stack [f] = print_frame f"
| "print_stack (f # p # fs) = print_stack (p # fs) @ ''('' @ print_frame f"

lemma print_seq_of: "print_regex (seq_of xs) = concat (map print_regex xs)"
  by (induction xs) simp_all

lemma print_alt_of_snoc:
  "print_regex (alt_of (xs @ [y])) = concat (map (\<lambda>a. print_regex a @ ''|'') xs) @ print_regex y"
  by (induction xs rule: alt_of.induct) simp_all

lemma print_close_frame: "print_regex (close_frame f) = print_frame f"
  by (simp add: close_frame_def print_frame_def print_alt_of_snoc print_seq_of)

lemma print_stack_top:
  "print_frame f' = print_frame f @ u \<Longrightarrow> print_stack (f' # fs) = print_stack (f # fs) @ u"
  by (cases fs) simp_all

lemma print_stack_push_atom:
  "fs \<noteq> [] \<Longrightarrow> print_stack (push_atom r fs) = print_stack fs @ print_regex r"
  by (cases fs) (auto simp: print_frame_def intro!: print_stack_top)

lemma print_stack_open: "fs \<noteq> [] \<Longrightarrow> print_stack (([], []) # fs) = print_stack fs @ ''(''"
  by (cases fs) (simp_all add: print_frame_def)

lemma print_stack_bar:
  "print_stack ((alts @ [seq_of cur], []) # fs) = print_stack ((alts, cur) # fs) @ ''|''"
  by (rule print_stack_top) (simp add: print_frame_def print_seq_of)

lemma print_stack_quest:
  "cur \<noteq> [] \<Longrightarrow>
     print_stack ((alts, butlast cur @ [Quest (last cur)]) # fs) = print_stack ((alts, cur) # fs) @ ''?''"
proof (rule print_stack_top)
  assume cur: "cur \<noteq> []"
  have "concat (map print_regex (butlast cur @ [Quest (last cur)])) =
      (concat (map print_regex (butlast cur)) @ print_regex (last cur)) @ ''?''"
    by simp
  also have "\<dots> = concat (map print_regex cur) @ ''?''"
    by (simp only: concat_map_butlast_last [OF cur])
  finally show "print_frame (alts, butlast cur @ [Quest (last cur)]) = print_frame (alts, cur) @ ''?''"
    by (simp add: print_frame_def)
qed

lemma push_atom_nonempty [simp]: "push_atom r fs \<noteq> [] \<longleftrightarrow> fs \<noteq> []"
  by (cases fs) auto

lemma parse_loop_prints:
  "parse_loop fs s = Some fs' \<Longrightarrow> fs \<noteq> [] \<Longrightarrow> print_stack fs' = print_stack fs @ s"
proof -
  assume run: "parse_loop fs s = Some fs'" and ne: "fs \<noteq> []"
  have "fs' \<noteq> [] \<and> print_stack fs' = print_stack fs @ ([] @ s)"
    by (rule parse_loop_invariant [where I = "\<lambda>fs' u. fs' \<noteq> [] \<and> print_stack fs' = print_stack fs @ u", OF run])
      (simp_all add: ne print_stack_push_atom print_close_frame print_stack_open print_stack_bar
        print_stack_quest)
  then show ?thesis by simp
qed

theorem print_compile: "compile s = Some r \<Longrightarrow> print_regex r = s"
  using parse_loop_prints [of "[([], [])]" s]
  by (auto simp: compile_def print_close_frame print_frame_def split: option.splits list.splits)

section \<open>Compiled patterns are well-formed\<close>

definition wf_frame :: "frame \<Rightarrow> bool" where
  "wf_frame f = (list_all wf_seq (fst f) \<and> list_all wf_piece (snd f))"

lemma wf_seq_of: "list_all wf_piece xs \<Longrightarrow> wf_seq (seq_of xs)"
  by (induction xs) simp_all

lemma wf_seq_alt: "wf_seq r \<Longrightarrow> wf_alt r"
  by (cases r) simp_all

lemma wf_alt_of: "list_all wf_seq xs \<Longrightarrow> xs \<noteq> [] \<Longrightarrow> wf_alt (alt_of xs)"
  by (induction xs rule: alt_of.induct) (simp_all add: wf_seq_alt)

lemma wf_close_frame: "wf_frame f \<Longrightarrow> wf_alt (close_frame f)"
  by (simp add: wf_frame_def close_frame_def wf_alt_of wf_seq_of)

lemma wf_push_atom:
  "list_all wf_frame fs \<Longrightarrow> wf_piece r \<Longrightarrow> list_all wf_frame (push_atom r fs)"
  by (cases "(r, fs)" rule: push_atom.cases) (simp_all add: wf_frame_def)

lemma repeatable_wf_atom: "repeatable x \<Longrightarrow> wf_piece x \<Longrightarrow> wf_atom x"
  by (cases x) simp_all

lemma parse_loop_wf:
  "parse_loop fs s = Some fs' \<Longrightarrow> list_all wf_frame fs \<Longrightarrow> list_all wf_frame fs'"
proof -
  assume run: "parse_loop fs s = Some fs'" and wf: "list_all wf_frame fs"
  have empty: "wf_frame ([], [])" by (simp add: wf_frame_def)
  have bar: "wf_frame (alts, cur) \<Longrightarrow> wf_frame (alts @ [seq_of cur], [])" for alts cur
    by (simp add: wf_frame_def wf_seq_of)
  have quest: "wf_frame (alts, butlast cur @ [Quest (last cur)])"
    if "wf_frame (alts, cur)" "cur \<noteq> []" "repeatable (last cur)" for alts cur
    using that list_all_butlast_last [OF that(2), of wf_piece]
    by (simp add: wf_frame_def repeatable_wf_atom)
  show ?thesis
    by (rule parse_loop_invariant [where I = "\<lambda>fs u. list_all wf_frame fs" and u = "[]", OF run wf])
      (simp_all add: empty bar quest wf_push_atom wf_close_frame)
qed

theorem compile_wf: "compile s = Some r \<Longrightarrow> wf_alt r"
  using parse_loop_wf [of "[([], [])]" s]
  by (auto simp: compile_def wf_frame_def wf_close_frame split: option.splits list.splits)

end
