(* ===== verification/GoErrors.thy ===== *)
theory GoErrors
  imports Prelude
begin

text \<open>
  Go's \<open>error\<close> values as far as the linter code builds and inspects them. The code
  produces errors in two ways only: \<open>fmt.Errorf\<close> with plain verbs (\<open>%s\<close>), which
  yields an error carrying nothing but its message, and \<open>fmt.Errorf\<close> with one
  \<open>%w\<close> verb, which wraps an inner error between a prefix and a suffix of text.
  Errors that come from the file system (\<open>d.Info()\<close>, \<open>ReadDir\<close>, \<open>Stat\<close>) are
  opaque values with a message. \<open>io/fs\<close> adds the two sentinels \<open>SkipDir\<close> and
  \<open>SkipAll\<close> that a walk callback may return, compared by identity (\<open>==\<close>); the
  datatype's equality is that identity, since every constructed error is a fresh
  value distinct from the sentinels.
  \<open>Error()\<close> is \<open>error_text\<close>, \<open>errors.Unwrap\<close> is \<open>unwrap\<close>, \<open>errors.Is\<close>
  is \<open>errors_is\<close>.
\<close>

datatype go_error =
    Errorf go_string
  | Wrapf go_string go_error go_string
  | IOErr go_string
  | SkipDir
  | SkipAll

fun error_text :: "go_error \<Rightarrow> go_string" where
  "error_text (Errorf msg) = msg"
| "error_text (Wrapf pre e post) = pre @ error_text e @ post"
| "error_text (IOErr msg) = msg"
| "error_text SkipDir = ''skip this directory''"
| "error_text SkipAll = ''skip everything and stop the walk''"

fun unwrap :: "go_error \<Rightarrow> go_error option" where
  "unwrap (Wrapf pre e post) = Some e"
| "unwrap _ = None"

fun errors_is :: "go_error \<Rightarrow> go_error \<Rightarrow> bool" where
  "errors_is (Wrapf pre e post) target = (Wrapf pre e post = target \<or> errors_is e target)"
| "errors_is e target = (e = target)"

lemma wrapf_not_sentinel [simp]:
  "Wrapf pre e post \<noteq> SkipDir" "Wrapf pre e post \<noteq> SkipAll"
  "Errorf msg \<noteq> SkipDir" "Errorf msg \<noteq> SkipAll"
  by simp_all

lemma errors_is_refl [simp]: "errors_is e e"
  by (cases e) simp_all

lemma errors_is_unwrap: "unwrap e = Some e' \<Longrightarrow> errors_is e' t \<Longrightarrow> errors_is e t"
  by (cases e) auto

lemma sublist_error_text_wrapf [simp]:
  "sublist pre (error_text (Wrapf pre e post))"
  "sublist (error_text e) (error_text (Wrapf pre e post))"
  "sublist post (error_text (Wrapf pre e post))"
  by simp_all (metis append.assoc sublist_append_leftI)

end
