(* ===== verification/IoFs.thy ===== *)
theory IoFs
  imports GoErrors
begin

text \<open>
  The part of Go's \<open>io/fs\<close> package the enforcer relies on: file modes with their
  setuid and setgid bits, directory entries, a file tree (\<open>fs.FS\<close>) with the
  errors its reads can report, \<open>fs.ReadDir\<close>, \<open>path.Join\<close>, and \<open>fs.WalkDir\<close>
  with its callback protocol.

  \<^item> \<open>FileMode\<close> is Go's \<open>uint32\<close> \<open>fs.FileMode\<close>, a \<open>32 word\<close>. The type bits are
    numbered from the top: \<open>ModeDir = 1 << 31\<close> down to \<open>ModeSetuid = 1 << 23\<close>
    and \<open>ModeSetgid = 1 << 22\<close>.
  \<^item> A node of the tree (\<open>FsNode\<close>) carries the result of \<open>Info()\<close> on its entry
    (a mode or the error \<open>Info()\<close> returns) and, for a directory, the result of
    reading it: the entries \<open>ReadDir\<close> returned and the error it reported, if
    any (Go returns the entries read before the error together with it).
  \<^item> \<open>ReadDir\<close> returns the entries sorted by file name, as \<open>fs.ReadDir\<close> does.
  \<^item> \<open>walkDir\<close> and \<open>walkDirList\<close> are the recursion of \<open>fs.walkDir\<close> and its
    loop over the entries; \<open>WalkDir\<close> is the exported entry point, which first
    stats the root. The callback gets the path, and either the entry
    (\<open>WEntry\<close>, Go's \<open>err == nil\<close>) or an error with the entry if there is one
    (\<open>WErr\<close>): a failed stat of the root (no entry) or a failed \<open>ReadDir\<close>
    (the second call for a directory). The sentinels \<open>SkipDir\<close> and \<open>SkipAll\<close>
    are honoured exactly as Go does.
  \<^item> \<open>walk_events\<close> is the abstract view: the list of calls the walk makes to a
    callback that never stops it. \<open>WalkDir_first_some\<close> shows that the walk with
    any callback that never returns a sentinel is the first error of the callback
    over that list, so that the order and the fail-fast behaviour of the walk are
    properties of a list.
\<close>

type_synonym FileMode = "32 word"

definition ModeSetuid :: FileMode where
  "ModeSetuid = push_bit 23 1"

definition ModeSetgid :: FileMode where
  "ModeSetgid = push_bit 22 1"

record DirEntry =
  Name :: go_string
  IsDir :: bool
  Info :: "go_error + FileMode"

datatype fs_tree =
  FsNode (node_info: "go_error + FileMode")
         (node_dir: "(go_error option \<times> (go_string \<times> fs_tree) list) option")

definition entry_of :: "go_string \<Rightarrow> fs_tree \<Rightarrow> DirEntry" where
  "entry_of nm t = \<lparr>Name = nm, IsDir = (node_dir t \<noteq> None), Info = node_info t\<rparr>"

definition ReadDir :: "(go_string \<times> fs_tree) list \<Rightarrow> (go_string \<times> fs_tree) list" where
  "ReadDir ents = sort_key fst ents"

definition pathJoin :: "go_string \<Rightarrow> go_string \<Rightarrow> go_string" where
  "pathJoin dir elem = (if dir = ''.'' then elem else dir @ ''/'' @ elem)"

datatype walk_arg = WEntry DirEntry | WErr "DirEntry option" go_error

type_synonym WalkDirFunc = "go_string \<Rightarrow> walk_arg \<Rightarrow> go_error option"

lemma size_ReadDir:
  "size_list (size_prod (\<lambda>_. 0) size) (ReadDir ents) = size_list (size_prod (\<lambda>_. 0) size) ents"
proof -
  have "mset (map (size_prod (\<lambda>_. 0) size) (ReadDir ents)) =
      mset (map (size_prod (\<lambda>_. 0) size) ents)"
    by (simp only: ReadDir_def mset_map mset_sort)
  then have "sum_list (map (size_prod (\<lambda>_. 0) size) (ReadDir ents)) =
      sum_list (map (size_prod (\<lambda>_. 0) size) ents)"
    by (metis sum_mset_sum_list)
  then show ?thesis by (simp add: size_list_conv_sum_list ReadDir_def)
qed

function walkDir :: "WalkDirFunc \<Rightarrow> go_string \<Rightarrow> go_string \<Rightarrow> fs_tree \<Rightarrow> go_error option"
  and walkDirList :: "WalkDirFunc \<Rightarrow> go_string \<Rightarrow> (go_string \<times> fs_tree) list \<Rightarrow> go_error option"
where
  "walkDir fn name nm (FsNode info dir) =
     (let d = entry_of nm (FsNode info dir) in
      case fn name (WEntry d) of
        Some err \<Rightarrow> (if err = SkipDir \<and> IsDir d then None else Some err)
      | None \<Rightarrow>
          (case dir of
            None \<Rightarrow> None
          | Some (rerr, ents) \<Rightarrow>
              (case rerr of
                None \<Rightarrow> walkDirList fn name (ReadDir ents)
              | Some re \<Rightarrow>
                  (case fn name (WErr (Some d) re) of
                    Some err \<Rightarrow> (if err = SkipDir then None else Some err)
                  | None \<Rightarrow> walkDirList fn name (ReadDir ents)))))"
| "walkDirList fn name [] = None"
| "walkDirList fn name ((nm, t) # rest) =
     (case walkDir fn (pathJoin name nm) nm t of
       None \<Rightarrow> walkDirList fn name rest
     | Some err \<Rightarrow> (if err = SkipDir then None else Some err))"
  by pat_completeness auto
termination
  by (relation "measure (case_sum (\<lambda>(fn, name, nm, t). size t)
      (\<lambda>(fn, name, ents). size_list (size_prod (\<lambda>_. 0) size) ents))")
     (auto simp: size_ReadDir)

definition WalkDir :: "fs_tree \<Rightarrow> go_string \<Rightarrow> WalkDirFunc \<Rightarrow> go_error option" where
  "WalkDir fsys root fn =
     (let err = (case node_info fsys of
                   Inl e \<Rightarrow> fn root (WErr None e)
                 | Inr info \<Rightarrow> walkDir fn root root fsys)
      in if err = Some SkipDir \<or> err = Some SkipAll then None else err)"

section \<open>The calls of a walk, as a list\<close>

function events_dir :: "go_string \<Rightarrow> go_string \<Rightarrow> fs_tree \<Rightarrow> (go_string \<times> walk_arg) list"
  and events_list :: "go_string \<Rightarrow> (go_string \<times> fs_tree) list \<Rightarrow> (go_string \<times> walk_arg) list"
where
  "events_dir name nm (FsNode info dir) =
     (let d = entry_of nm (FsNode info dir) in
      (name, WEntry d) #
        (case dir of
          None \<Rightarrow> []
        | Some (rerr, ents) \<Rightarrow>
            (case rerr of None \<Rightarrow> [] | Some re \<Rightarrow> [(name, WErr (Some d) re)])
            @ events_list name (ReadDir ents)))"
| "events_list name [] = []"
| "events_list name ((nm, t) # rest) = events_dir (pathJoin name nm) nm t @ events_list name rest"
  by pat_completeness auto
termination
  by (relation "measure (case_sum (\<lambda>(name, nm, t). size t)
      (\<lambda>(name, ents). size_list (size_prod (\<lambda>_. 0) size) ents))")
     (auto simp: size_ReadDir)

definition walk_events :: "fs_tree \<Rightarrow> go_string \<Rightarrow> (go_string \<times> walk_arg) list" where
  "walk_events fsys root =
     (case node_info fsys of
        Inl e \<Rightarrow> [(root, WErr None e)]
      | Inr info \<Rightarrow> events_dir root root fsys)"

lemma events_dir_nonempty: "events_dir name nm t \<noteq> []"
  by (cases t) (simp add: Let_def)

lemma walk_events_nonempty: "walk_events fsys root \<noteq> []"
  by (simp add: walk_events_def events_dir_nonempty split: sum.split)

definition no_sentinel :: "WalkDirFunc \<Rightarrow> bool" where
  "no_sentinel fn \<longleftrightarrow> (\<forall>p a. fn p a \<noteq> Some SkipDir \<and> fn p a \<noteq> Some SkipAll)"

lemma first_some_no_sentinel:
  "no_sentinel fn \<Longrightarrow> first_some (case_prod fn) xs \<noteq> Some SkipDir \<and>
     first_some (case_prod fn) xs \<noteq> Some SkipAll"
  by (induction xs) (auto simp: no_sentinel_def split: option.split)

lemma walk_first_some:
  assumes ns: "no_sentinel fn"
  shows "walkDir fn name nm t = first_some (case_prod fn) (events_dir name nm t)"
    and "walkDirList fn name ents = first_some (case_prod fn) (events_list name ents)"
  using ns
proof (induction fn name nm t and fn name ents rule: walkDir_walkDirList.induct)
  case (1 fn name nm info dir)
  then show ?case
    by (auto simp: Let_def no_sentinel_def entry_of_def split: option.split)
next
  case (2 fn name)
  then show ?case by simp
next
  case (3 fn name nm t rest)
  then show ?case
    using first_some_no_sentinel [OF "3.prems", of "events_dir (pathJoin name nm) nm t"]
    by (auto split: option.split simp del: first_some_None_iff)
qed

lemma WalkDir_first_some:
  assumes "no_sentinel fn"
  shows "WalkDir fsys root fn = first_some (case_prod fn) (walk_events fsys root)"
  using assms walk_first_some(1) [OF assms] first_some_no_sentinel [OF assms]
  by (auto simp: WalkDir_def walk_events_def no_sentinel_def Let_def split: sum.split option.split)


section \<open>Trees that read without error\<close>

fun readable :: "fs_tree \<Rightarrow> bool" where
  "readable (FsNode info dir) =
     (case dir of
        None \<Rightarrow> True
      | Some (rerr, ents) \<Rightarrow> rerr = None \<and> list_all (\<lambda>(nm, t). readable t) ents)"

definition fs_clean :: "fs_tree \<Rightarrow> bool" where
  "fs_clean fsys \<longleftrightarrow> \<not> isl (node_info fsys) \<and> readable fsys"

lemma readable_events:
  shows "readable t \<Longrightarrow> (p, a) \<in> set (events_dir name nm t) \<Longrightarrow> \<exists>d. a = WEntry d"
    and "list_all (\<lambda>(nm, t). readable t) ents \<Longrightarrow> (p, a) \<in> set (events_list name ents) \<Longrightarrow>
           \<exists>d. a = WEntry d"
proof (induction name nm t and name ents rule: events_dir_events_list.induct)
  case (1 name nm info dir)
  then show ?case
    by (auto simp: Let_def ReadDir_def list_all_iff split: option.splits)
next
  case (2 name)
  then show ?case by simp
next
  case (3 name nm t rest)
  then show ?case by auto
qed

lemma fs_clean_events:
  "fs_clean fsys \<Longrightarrow> (p, a) \<in> set (walk_events fsys root) \<Longrightarrow> \<exists>d. a = WEntry d"
  by (auto simp: fs_clean_def walk_events_def readable_events(1) split: sum.splits)

lemma fs_clean_entries_iff:
  assumes "fs_clean fsys"
  shows "(\<forall>(p, a) \<in> set (walk_events fsys root). \<exists>d. a = WEntry d \<and> F p d) \<longleftrightarrow>
         (\<forall>(p, a) \<in> set (walk_events fsys root). \<forall>d. a = WEntry d \<longrightarrow> F p d)"
proof
  assume "\<forall>(p, a) \<in> set (walk_events fsys root). \<exists>d. a = WEntry d \<and> F p d"
  then show "\<forall>(p, a) \<in> set (walk_events fsys root). \<forall>d. a = WEntry d \<longrightarrow> F p d"
    by auto
next
  assume all: "\<forall>(p, a) \<in> set (walk_events fsys root). \<forall>d. a = WEntry d \<longrightarrow> F p d"
  show "\<forall>(p, a) \<in> set (walk_events fsys root). \<exists>d. a = WEntry d \<and> F p d"
  proof (intro ballI, clarify)
    fix p a
    assume mem: "(p, a) \<in> set (walk_events fsys root)"
    then obtain d where "a = WEntry d" using fs_clean_events [OF assms] by blast
    with all mem show "\<exists>d. a = WEntry d \<and> F p d" by auto
  qed
qed

lemma fs_clean_paths_iff:
  assumes "fs_clean fsys"
  shows "(\<forall>(p, a) \<in> set (walk_events fsys root). \<forall>d. a = WEntry d \<longrightarrow> G p) \<longleftrightarrow>
         (\<forall>p \<in> fst ` set (walk_events fsys root). G p)"
  using fs_clean_events [OF assms] by fastforce

lemma entries_only_readable:
  shows "(\<forall>(p, a) \<in> set (events_dir name nm t). \<exists>d. a = WEntry d) \<Longrightarrow> readable t"
    and "(\<forall>(p, a) \<in> set (events_list name ents). \<exists>d. a = WEntry d) \<Longrightarrow>
           list_all (\<lambda>(nm, t). readable t) ents"
proof (induction name nm t and name ents rule: events_dir_events_list.induct)
  case (1 name nm info dir)
  show ?case
  proof (cases dir)
    case None
    then show ?thesis by simp
  next
    case (Some a)
    then obtain rerr ents where dir: "dir = Some (rerr, ents)" by (cases a) auto
    have "rerr = None" using "1.prems" dir by (cases rerr) (auto simp: Let_def)
    moreover have "list_all (\<lambda>(nm, t). readable t) (ReadDir ents)"
      using "1.IH" "1.prems" dir \<open>rerr = None\<close> by (auto simp: Let_def)
    ultimately show ?thesis using dir by (simp add: ReadDir_def list_all_iff)
  qed
next
  case (2 name)
  then show ?case by simp
next
  case (3 name nm t rest)
  then show ?case by auto
qed

lemma fs_clean_iff_entries:
  "fs_clean fsys \<longleftrightarrow> (\<forall>(p, a) \<in> set (walk_events fsys root). \<exists>d. a = WEntry d)"
proof
  assume "fs_clean fsys"
  then show "\<forall>(p, a) \<in> set (walk_events fsys root). \<exists>d. a = WEntry d"
    using fs_clean_events by blast
next
  assume "\<forall>(p, a) \<in> set (walk_events fsys root). \<exists>d. a = WEntry d"
  then show "fs_clean fsys"
    by (auto simp: fs_clean_def walk_events_def entries_only_readable(1) split: sum.splits)
qed

end
