(* ===== verification/Linters.thy ===== *)
theory Linters
  imports RegexpSyntax IoFs
begin

unbundle bit_operations_syntax

text \<open>
  The linter registry and the four checks of \<open>src/pkg/build/linter.go\<close>.
  \<open>LinterContext\<close> is the Go struct (the package name and two pointers into the
  configuration, which no check reads); a check is a \<open>LinterFunc\<close> from the
  context, the path relative to the root and the directory entry to an optional
  error; \<open>Linter\<close> pairs a check with the hint shown when it fails; \<open>Linters\<close> is
  the package-level map from check names to linters. The four patterns are
  \<open>MustCompile\<close> of the source's pattern strings, as in the source;
  \<open>compile_patterns\<close> computes the trees they compile to, and \<open>patterns_source_text\<close>
  shows that each compiles and prints back to its string.
\<close>

record ('cfg, 'chk) LinterContext =
  pkgname :: go_string
  cfg :: 'cfg
  chk :: 'chk

type_synonym ('cfg, 'chk) LinterFunc =
  "('cfg, 'chk) LinterContext \<Rightarrow> go_string \<Rightarrow> DirEntry \<Rightarrow> go_error option"

record ('cfg, 'chk) Linter =
  LinterFunc :: "('cfg, 'chk) LinterFunc"
  Explain :: go_string

section \<open>The compiled patterns\<close>

definition isUsrLocalRegex :: regex where
  "isUsrLocalRegex = MustCompile ''^usr/local/''"

definition isVarEmptyRegex :: regex where
  "isVarEmptyRegex = MustCompile ''^var/empty/''"

definition isTempDirRegex :: regex where
  "isTempDirRegex = MustCompile ''^(var/)?(tmp|run)/''"

definition isCompatPackage :: regex where
  "isCompatPackage = MustCompile ''-compat$''"

section \<open>The checks\<close>

definition usrLocalLinter :: "('cfg, 'chk) LinterFunc" where
  "usrLocalLinter lctx path d =
     (if MatchString isCompatPackage (pkgname lctx) then None
      else if MatchString isUsrLocalRegex path
        then Some (Errorf ''/usr/local path found in non-compat package'')
      else None)"

definition varEmptyLinter :: "('cfg, 'chk) LinterFunc" where
  "varEmptyLinter lctx path d =
     (if MatchString isVarEmptyRegex path then Some (Errorf ''Package writes to /var/empty'')
      else None)"

definition tempDirLinter :: "('cfg, 'chk) LinterFunc" where
  "tempDirLinter lctx path d =
     (if MatchString isTempDirRegex path then Some (Errorf ''Package writes to a temp dir'')
      else None)"

definition isSetUidOrGidLinter :: "('cfg, 'chk) LinterFunc" where
  "isSetUidOrGidLinter lctx path d =
     (case Info d of
        Inl err \<Rightarrow> Some err
      | Inr mode \<Rightarrow>
          (if mode AND ModeSetuid \<noteq> 0 then Some (Errorf ''File is setuid'')
           else if mode AND ModeSetgid \<noteq> 0 then Some (Errorf ''File is setgid'')
           else None))"

section \<open>The registry\<close>

definition Linters :: "go_string \<rightharpoonup> ('cfg, 'chk) Linter" where
  "Linters = map_of
     [(''setuidgid'', \<lparr>LinterFunc = isSetUidOrGidLinter,
         Explain = ''Unset the setuid/setgid bit on the relevant files, or remove this linter''\<rparr>),
      (''tempdir'', \<lparr>LinterFunc = tempDirLinter,
         Explain = ''Remove any offending files in temporary dirs in the pipeline''\<rparr>),
      (''usrlocal'', \<lparr>LinterFunc = usrLocalLinter,
         Explain = ''This package should be a -compat package''\<rparr>),
      (''varempty'', \<lparr>LinterFunc = varEmptyLinter,
         Explain = ''Remove any offending files in /var/empty in the pipeline''\<rparr>)]"

section \<open>The trees the patterns compile to\<close>

lemma compile_patterns:
  "compile ''^usr/local/'' = Some (Concat BeginText (lits ''usr/local/''))"
  "compile ''^var/empty/'' = Some (Concat BeginText (lits ''var/empty/''))"
  "compile ''^(var/)?(tmp|run)/'' =
     Some (Concat BeginText
       (Concat (Quest (Capture (lits ''var/'')))
         (Concat (Capture (Alternate (lits ''tmp'') (lits ''run''))) (lits ''/''))))"
  "compile ''-compat$'' = Some (seq_of (map Lit ''-compat'' @ [EndText]))"
  by (simp_all add: compile_def close_frame_def meta_chars_def)

lemma pattern_trees:
  "isUsrLocalRegex = Concat BeginText (lits ''usr/local/'')"
  "isVarEmptyRegex = Concat BeginText (lits ''var/empty/'')"
  "isTempDirRegex =
     Concat BeginText
       (Concat (Quest (Capture (lits ''var/'')))
         (Concat (Capture (Alternate (lits ''tmp'') (lits ''run''))) (lits ''/'')))"
  "isCompatPackage = seq_of (map Lit ''-compat'' @ [EndText])"
  by (simp_all add: isUsrLocalRegex_def isVarEmptyRegex_def isTempDirRegex_def isCompatPackage_def
      MustCompile_def compile_patterns)

section \<open>What each pattern matches\<close>

lemma match_isUsrLocalRegex [simp]: "MatchString isUsrLocalRegex p \<longleftrightarrow> prefix ''usr/local/'' p"
  by (simp only: pattern_trees MatchString_prefix)

lemma match_isVarEmptyRegex [simp]: "MatchString isVarEmptyRegex p \<longleftrightarrow> prefix ''var/empty/'' p"
  by (simp only: pattern_trees MatchString_prefix)

lemma match_isCompatPackage [simp]: "MatchString isCompatPackage n \<longleftrightarrow> suffix ''-compat'' n"
  by (simp only: pattern_trees MatchString_suffix)

lemma isTempDirRegex_matches [simp]:
  "MatchString isTempDirRegex p \<longleftrightarrow>
     prefix ''tmp/'' p \<or> prefix ''run/'' p \<or> prefix ''var/tmp/'' p \<or> prefix ''var/run/'' p"
proof -
  have "MatchString isTempDirRegex p \<longleftrightarrow>
      prefix ''var/'' p \<and> prefix ''tmp'' (drop 4 p) \<and> prefix ''/'' (drop 7 p) \<or>
      prefix ''var/'' p \<and> prefix ''run'' (drop 4 p) \<and> prefix ''/'' (drop 7 p) \<or>
      prefix ''tmp'' p \<and> prefix ''/'' (drop 3 p) \<or>
      prefix ''run'' p \<and> prefix ''/'' (drop 3 p)"
    unfolding pattern_trees(3)
    apply (simp only:  MatchString_BeginText ends_Concat_Quest ends_Concat_Capture
        ends_Concat_lits ends_Concat_Alternate ends_lits)
    by (simp add: eval_nat_numeral prefix_drop_Cons_le_conj del: lits.simps) blast
  then show ?thesis
    using prefix_append3_iff_drop [of "''var/''" "''tmp''" "''/''" p]
      prefix_append3_iff_drop [of "''var/''" "''run''" "''/''" p]
      prefix_append_iff_drop [of "''tmp''" "''/''" p]
      prefix_append_iff_drop [of "''run''" "''/''" p]
    by (simp add: eval_nat_numeral) blast
qed

section \<open>The mode bits\<close>

lemma and_push_bit_one_neq_0: "(w :: 'a::len word) AND push_bit n 1 \<noteq> 0 \<longleftrightarrow> bit w n"
  by (simp add: and_exp_eq_0_iff_not_bit)

lemma ModeSetuid_bit [simp]: "mode AND ModeSetuid \<noteq> 0 \<longleftrightarrow> bit mode 23"
  by (simp only: ModeSetuid_def and_push_bit_one_neq_0)

lemma ModeSetgid_bit [simp]: "mode AND ModeSetgid \<noteq> 0 \<longleftrightarrow> bit mode 22"
  by (simp only: ModeSetgid_def and_push_bit_one_neq_0)

section \<open>What each check does\<close>

lemma usrLocalLinter_eq:
  "usrLocalLinter lctx path d =
     (if suffix ''-compat'' (pkgname lctx) then None
      else if prefix ''usr/local/'' path
        then Some (Errorf ''/usr/local path found in non-compat package'')
      else None)"
  by (simp add: usrLocalLinter_def)

lemma varEmptyLinter_eq:
  "varEmptyLinter lctx path d =
     (if prefix ''var/empty/'' path then Some (Errorf ''Package writes to /var/empty'') else None)"
  by (simp add: varEmptyLinter_def)

lemma tempDirLinter_eq:
  "tempDirLinter lctx path d =
     (if prefix ''tmp/'' path \<or> prefix ''run/'' path \<or> prefix ''var/tmp/'' path \<or>
         prefix ''var/run/'' path
      then Some (Errorf ''Package writes to a temp dir'') else None)"
  by (simp add: tempDirLinter_def)

lemma isSetUidOrGidLinter_eq:
  "isSetUidOrGidLinter lctx path d =
     (case Info d of
        Inl err \<Rightarrow> Some err
      | Inr mode \<Rightarrow>
          (if bit mode 23 then Some (Errorf ''File is setuid'')
           else if bit mode 22 then Some (Errorf ''File is setgid'')
           else None))"
  by (simp add: isSetUidOrGidLinter_def split: sum.split)

lemma linter_None_iff:
  "usrLocalLinter lctx path d = None \<longleftrightarrow>
     suffix ''-compat'' (pkgname lctx) \<or> \<not> prefix ''usr/local/'' path"
  "varEmptyLinter lctx path d = None \<longleftrightarrow> \<not> prefix ''var/empty/'' path"
  "tempDirLinter lctx path d = None \<longleftrightarrow>
     \<not> (prefix ''tmp/'' path \<or> prefix ''run/'' path \<or> prefix ''var/tmp/'' path \<or>
        prefix ''var/run/'' path)"
  "isSetUidOrGidLinter lctx path d = None \<longleftrightarrow>
     (\<exists>m. Info d = Inr m \<and> \<not> bit m 23 \<and> \<not> bit m 22)"
  by (simp_all add: usrLocalLinter_eq varEmptyLinter_eq tempDirLinter_eq
      isSetUidOrGidLinter_eq split: sum.split)

section \<open>Facts about the registry\<close>

lemma Linters_simps [linter_defs]:
  "Linters ''setuidgid'' = Some \<lparr>LinterFunc = isSetUidOrGidLinter,
     Explain = ''Unset the setuid/setgid bit on the relevant files, or remove this linter''\<rparr>"
  "Linters ''tempdir'' = Some \<lparr>LinterFunc = tempDirLinter,
     Explain = ''Remove any offending files in temporary dirs in the pipeline''\<rparr>"
  "Linters ''usrlocal'' = Some \<lparr>LinterFunc = usrLocalLinter,
     Explain = ''This package should be a -compat package''\<rparr>"
  "Linters ''varempty'' = Some \<lparr>LinterFunc = varEmptyLinter,
     Explain = ''Remove any offending files in /var/empty in the pipeline''\<rparr>"
  by (simp_all add: Linters_def)

section \<open>Properties of the checks and of the registry\<close>

text \<open>
  C7. \<open>usrlocal\<close>: a package whose name ends in \<open>-compat\<close> passes every path; any
  other package fails exactly on the paths that start with \<open>usr/local/\<close>, with the
  source's message.
\<close>

theorem usrLocalLinter_result:
  "usrLocalLinter lctx path d =
     (if suffix ''-compat'' (pkgname lctx) then None
      else if prefix ''usr/local/'' path
        then Some (Errorf ''/usr/local path found in non-compat package'')
      else None)"
  by (rule usrLocalLinter_eq)

text \<open>
  C8. \<open>tempdir\<close> fails exactly on the paths that start with \<open>tmp/\<close>, \<open>run/\<close>,
  \<open>var/tmp/\<close> or \<open>var/run/\<close> (the pattern \<open>^(var/)?(tmp|run)/\<close>).
\<close>

theorem tempDirLinter_result:
  "tempDirLinter lctx path d =
     (if prefix ''tmp/'' path \<or> prefix ''run/'' path \<or> prefix ''var/tmp/'' path \<or>
         prefix ''var/run/'' path
      then Some (Errorf ''Package writes to a temp dir'') else None)"
  by (rule tempDirLinter_eq)

text \<open>
  C9. \<open>varempty\<close> fails exactly on the paths that start with \<open>var/empty/\<close>.
\<close>

theorem varEmptyLinter_result:
  "varEmptyLinter lctx path d =
     (if prefix ''var/empty/'' path then Some (Errorf ''Package writes to /var/empty'') else None)"
  by (rule varEmptyLinter_eq)

text \<open>
  C10. \<open>setuidgid\<close> returns the error of \<open>d.Info()\<close> when there is one; otherwise it
  fails with "File is setuid" when bit 23 of the 32-bit mode is set, else with "File
  is setgid" when bit 22 is set, and passes otherwise.
\<close>

theorem isSetUidOrGidLinter_result:
  "isSetUidOrGidLinter lctx path d =
     (case Info d of
        Inl err \<Rightarrow> Some err
      | Inr mode \<Rightarrow>
          (if bit mode 23 then Some (Errorf ''File is setuid'')
           else if bit mode 22 then Some (Errorf ''File is setgid'')
           else None))"
  by (rule isSetUidOrGidLinter_eq)

lemma bit_mask_setid:
  "bit (m AND (ModeSetuid OR ModeSetgid)) 23 = bit m 23"
  "bit (m AND (ModeSetuid OR ModeSetgid)) 22 = bit m 22"
  by (simp_all add: bit_simps ModeSetuid_def ModeSetgid_def)

text \<open>
  C11. \<open>setuidgid\<close> reads only the setuid and setgid bits of the 32-bit mode: two
  modes that agree on \<open>mode & (ModeSetuid | ModeSetgid)\<close> get the same outcome,
  whatever their permission and type bits; in particular clearing both bits makes the
  check pass.
\<close>

theorem isSetUidOrGidLinter_mask:
  assumes "mode AND (ModeSetuid OR ModeSetgid) = mode' AND (ModeSetuid OR ModeSetgid)"
  shows "isSetUidOrGidLinter lctx path (d\<lparr>Info := Inr mode\<rparr>) =
         isSetUidOrGidLinter lctx path (d\<lparr>Info := Inr mode'\<rparr>)"
proof -
  have "bit mode 23 = bit mode' 23" "bit mode 22 = bit mode' 22"
    using bit_mask_setid [of mode] bit_mask_setid [of mode'] assms by metis+
  then show ?thesis by (simp add: isSetUidOrGidLinter_eq)
qed

text \<open>
  C12. The four compiled patterns match exactly what their source text says:
  \<open>^usr/local/\<close> the strings that start with \<open>usr/local/\<close>, \<open>^var/empty/\<close> those
  that start with \<open>var/empty/\<close>, \<open>^(var/)?(tmp|run)/\<close> those that start with
  \<open>tmp/\<close>, \<open>run/\<close>, \<open>var/tmp/\<close> or \<open>var/run/\<close>, and \<open>-compat$\<close> the names that
  end with \<open>-compat\<close>: without \<open>(?m)\<close>, Go's \<open>$\<close> matches only at the end of the
  text, so a name with \<open>-compat\<close> in the middle is not exempt.
\<close>

theorem pattern_matches:
  "(MatchString isUsrLocalRegex p \<longleftrightarrow> prefix ''usr/local/'' p) \<and>
   (MatchString isVarEmptyRegex p \<longleftrightarrow> prefix ''var/empty/'' p) \<and>
   (MatchString isTempDirRegex p \<longleftrightarrow>
      prefix ''tmp/'' p \<or> prefix ''run/'' p \<or> prefix ''var/tmp/'' p \<or> prefix ''var/run/'' p) \<and>
   (MatchString isCompatPackage p \<longleftrightarrow> suffix ''-compat'' p)"
  by (simp only: match_isUsrLocalRegex match_isVarEmptyRegex isTempDirRegex_matches
      match_isCompatPackage)

text \<open>
  Each of the four \<open>regexp.MustCompile\<close> calls succeeds (the pattern string
  parses, so the package initialisation does not panic), and printing the compiled
  pattern gives back the source string: \<open>^usr/local/\<close>, \<open>^var/empty/\<close>,
  \<open>^(var/)?(tmp|run)/\<close> and \<open>-compat$\<close>.
\<close>

theorem patterns_source_text:
  "compile ''^usr/local/'' = Some isUsrLocalRegex \<and> print_regex isUsrLocalRegex = ''^usr/local/'' \<and>
   compile ''^var/empty/'' = Some isVarEmptyRegex \<and> print_regex isVarEmptyRegex = ''^var/empty/'' \<and>
   compile ''^(var/)?(tmp|run)/'' = Some isTempDirRegex \<and>
   print_regex isTempDirRegex = ''^(var/)?(tmp|run)/'' \<and>
   compile ''-compat$'' = Some isCompatPackage \<and> print_regex isCompatPackage = ''-compat$''"
proof -
  have u: "compile ''^usr/local/'' = Some isUsrLocalRegex"
    and v: "compile ''^var/empty/'' = Some isVarEmptyRegex"
    and t: "compile ''^(var/)?(tmp|run)/'' = Some isTempDirRegex"
    and c: "compile ''-compat$'' = Some isCompatPackage"
    by (simp_all only: compile_patterns pattern_trees)
  show ?thesis using print_compile [OF u] print_compile [OF v] print_compile [OF t]
      print_compile [OF c] u v t c by blast
qed

end
