(* ===== verification/Enforcer.thy ===== *)
theory Enforcer
  imports Linters
begin

text \<open>
  The tree enforcer, \<open>lintPackageFs\<close> of \<open>src/pkg/build/linter.go\<close>: a callback
  \<open>walkCb\<close> handed to \<open>fs.WalkDir\<close> on the package's file system, rooted at
  \<open>"."\<close>. The callback reports a traversal error wrapped with its path; otherwise it
  runs the requested linters on the entry in the caller's order (\<open>runLinters\<close>, the
  \<open>for\<close> loop of the callback), stopping at an unknown name or at the first check
  that fails, whose error it wraps with the check's name, the path and the hint.
  The registry the callback reads is a parameter \<open>reg\<close> of the callback: the code
  reads the package variable \<open>Linters\<close>, and \<open>lintPackageFs\<close> passes exactly that.
\<close>

definition quote :: char where
  "quote = CHR 0x22"

fun runLinters ::
  "(go_string \<rightharpoonup> ('cfg, 'chk) Linter) \<Rightarrow> ('cfg, 'chk) LinterContext \<Rightarrow> go_string list \<Rightarrow>
     go_string \<Rightarrow> DirEntry \<Rightarrow> go_error option" where
  "runLinters reg lctx [] path d = None"
| "runLinters reg lctx (linterName # rest) path d =
     (case reg linterName of
        None \<Rightarrow> Some (Errorf (''Linter '' @ linterName @ '' is unknown''))
      | Some linter \<Rightarrow>
          (case LinterFunc linter lctx path d of
             Some err \<Rightarrow>
               Some (Wrapf (''Linter '' @ linterName @ '' failed at path '' @ [quote] @ path @ [quote] @ '': '')
                       err (''; suggest: '' @ Explain linter))
           | None \<Rightarrow> runLinters reg lctx rest path d))"

definition walkCb ::
  "(go_string \<rightharpoonup> ('cfg, 'chk) Linter) \<Rightarrow> ('cfg, 'chk) LinterContext \<Rightarrow> go_string list \<Rightarrow>
     WalkDirFunc" where
  "walkCb reg lctx linters path arg =
     (case arg of
        WErr d err \<Rightarrow> Some (Wrapf (''Error traversing tree at '' @ path @ '': '') err '''')
      | WEntry d \<Rightarrow> runLinters reg lctx linters path d)"

definition lintPackageFs ::
  "('cfg, 'chk) LinterContext \<Rightarrow> fs_tree \<Rightarrow> go_string list \<Rightarrow> go_error option" where
  "lintPackageFs lctx fsys linters =
     (case WalkDir fsys ''.'' (walkCb Linters lctx linters) of
        Some err \<Rightarrow> Some err
      | None \<Rightarrow> None)"

section \<open>The abstract contract of the enforcer\<close>

text \<open>
  What the enforcer promises, stated without the walk and the loop: the outcome of one
  check on one entry (\<open>check_outcome\<close>), and the first failing outcome over the
  walk's calls, in the walk's order, and for each entry over the requested checks in
  the caller's order (\<open>enforce_spec\<close>).
\<close>

definition linter_failed :: "go_string \<Rightarrow> go_string \<Rightarrow> go_error \<Rightarrow> go_string \<Rightarrow> go_error" where
  "linter_failed linterName path err hint =
     Wrapf (''Linter '' @ linterName @ '' failed at path '' @ [quote] @ path @ [quote] @ '': '')
       err (''; suggest: '' @ hint)"

definition check_outcome ::
  "(go_string \<rightharpoonup> ('cfg, 'chk) Linter) \<Rightarrow> ('cfg, 'chk) LinterContext \<Rightarrow> go_string \<Rightarrow>
     DirEntry \<Rightarrow> go_string \<Rightarrow> go_error option" where
  "check_outcome reg lctx path d linterName =
     (case reg linterName of
        None \<Rightarrow> Some (Errorf (''Linter '' @ linterName @ '' is unknown''))
      | Some l \<Rightarrow> map_option (\<lambda>err. linter_failed linterName path err (Explain l))
                   (LinterFunc l lctx path d))"

definition enforce_spec ::
  "(go_string \<rightharpoonup> ('cfg, 'chk) Linter) \<Rightarrow> ('cfg, 'chk) LinterContext \<Rightarrow> go_string list \<Rightarrow>
     (go_string \<times> walk_arg) list \<Rightarrow> go_error option" where
  "enforce_spec reg lctx linters events =
     first_some (\<lambda>(path, arg). case arg of
         WErr d err \<Rightarrow> Some (Wrapf (''Error traversing tree at '' @ path @ '': '') err '''')
       | WEntry d \<Rightarrow> first_some (check_outcome reg lctx path d) linters) events"

section \<open>The linter loop\<close>

lemma runLinters_first_some:
  "runLinters reg lctx linters path d = first_some (check_outcome reg lctx path d) linters"
  by (induction linters) (auto simp: check_outcome_def linter_failed_def split: option.split)

lemma runLinters_None_iff:
  "runLinters reg lctx linters path d = None \<longleftrightarrow>
     (\<forall>n \<in> set linters. \<exists>l. reg n = Some l \<and> LinterFunc l lctx path d = None)"
  by (auto simp: runLinters_first_some check_outcome_def split: option.splits)

lemma runLinters_not_sentinel:
  "runLinters reg lctx linters path d \<noteq> Some SkipDir \<and>
   runLinters reg lctx linters path d \<noteq> Some SkipAll"
  by (induction linters) (auto split: option.split)

lemma walkCb_no_sentinel: "no_sentinel (walkCb reg lctx linters)"
  by (auto simp: no_sentinel_def walkCb_def runLinters_not_sentinel split: walk_arg.split)

lemma walkCb_spec:
  "case_prod (walkCb reg lctx linters) =
     (\<lambda>(path, arg). case arg of
         WErr d err \<Rightarrow> Some (Wrapf (''Error traversing tree at '' @ path @ '': '') err '''')
       | WEntry d \<Rightarrow> first_some (check_outcome reg lctx path d) linters)"
  by (auto simp: walkCb_def runLinters_first_some fun_eq_iff split: walk_arg.split)

section \<open>The enforcer implements its contract\<close>

lemma lintPackageFs_enforce_spec:
  "lintPackageFs lctx fsys linters = enforce_spec Linters lctx linters (walk_events fsys ''.'')"
proof -
  have "lintPackageFs lctx fsys linters = WalkDir fsys ''.'' (walkCb Linters lctx linters)"
    by (simp add: lintPackageFs_def split: option.split)
  also have "\<dots> = first_some (case_prod (walkCb Linters lctx linters)) (walk_events fsys ''.'')"
    by (rule WalkDir_first_some [OF walkCb_no_sentinel])
  finally show ?thesis by (simp add: enforce_spec_def walkCb_spec)
qed

text \<open>
  C1. The enforcer implements its contract: \<open>lintPackageFs\<close> returns the first failing
  outcome over the calls of the walk, in the walk's order, where a traversal error is
  reported wrapped with its path, and an entry fails with the first of the requested
  checks, in the caller's order, that is unknown or fails on it.
\<close>

theorem lintPackageFs_refines_spec:
  "lintPackageFs lctx fsys linters = enforce_spec Linters lctx linters (walk_events fsys ''.'')"
  by (rule lintPackageFs_enforce_spec)

lemma check_outcome_None_iff:
  "check_outcome reg lctx path d n = None \<longleftrightarrow> (\<exists>l. reg n = Some l \<and> LinterFunc l lctx path d = None)"
  by (auto simp: check_outcome_def split: option.split)

text \<open>
  The enforcer's walk is its list of calls: with the callback of \<open>lintPackageFs\<close>,
  which never returns \<open>SkipDir\<close> or \<open>SkipAll\<close>, \<open>fs.WalkDir\<close> returns the
  callback's first error over the calls of \<open>walk_events\<close>, in that order.
\<close>

lemma lintPackageFs_walk:
  "lintPackageFs lctx fsys linters =
     first_some (case_prod (walkCb Linters lctx linters)) (walk_events fsys ''.'')"
  by (simp add: lintPackageFs_def WalkDir_first_some [OF walkCb_no_sentinel] split: option.split)

section \<open>Success, failure and the reported error\<close>

lemma lintPackageFs_None_conv:
  "lintPackageFs lctx fsys linters = None \<longleftrightarrow>
     (\<forall>(path, arg) \<in> set (walk_events fsys ''.'').
        \<exists>d. arg = WEntry d \<and>
            (\<forall>n \<in> set linters. \<exists>l. Linters n = Some l \<and> LinterFunc l lctx path d = None))"
  by (fastforce simp: lintPackageFs_enforce_spec enforce_spec_def check_outcome_None_iff
      split: walk_arg.splits)

text \<open>
  C2. The enforcer succeeds exactly when every call of the walk is an entry (no
  traversal error) and every requested check is registered and passes on that entry.
\<close>

theorem lintPackageFs_None_iff:
  "lintPackageFs lctx fsys linters = None \<longleftrightarrow>
     (\<forall>(path, arg) \<in> set (walk_events fsys ''.'').
        \<exists>d. arg = WEntry d \<and>
            (\<forall>n \<in> set linters. \<exists>l. Linters n = Some l \<and> LinterFunc l lctx path d = None))"
  by (rule lintPackageFs_None_conv)

text \<open>
  C3. Fail-fast: when the enforcer fails, its error is the error of the first call of
  the walk whose outcome is a failure; every earlier call passed, and nothing after it
  is reported.
\<close>

theorem lintPackageFs_fail_fast:
  assumes "lintPackageFs lctx fsys linters = Some e"
  shows "\<exists>pre path arg post. walk_events fsys ''.'' = pre @ (path, arg) # post \<and>
           (\<forall>(p, a) \<in> set pre. walkCb Linters lctx linters p a = None) \<and>
           walkCb Linters lctx linters path arg = Some e"
proof -
  from assms have "first_some (case_prod (walkCb Linters lctx linters)) (walk_events fsys ''.'') = Some e"
    by (simp add: lintPackageFs_walk)
  from first_some_SomeD [OF this] show ?thesis by fastforce
qed

lemma runLinters_SomeD:
  "runLinters reg lctx linters path d = Some e \<Longrightarrow>
     \<exists>pre n post. linters = pre @ n # post \<and>
       (\<forall>m \<in> set pre. check_outcome reg lctx path d m = None) \<and>
       check_outcome reg lctx path d n = Some e"
  unfolding runLinters_first_some by (drule first_some_SomeD) blast

text \<open>
  C4. The error of the linter loop names an unknown check, or it wraps the failing
  check's own error (\<open>errors.Unwrap\<close> returns it) in a message that contains the
  check's name, the path, the cause's text and the check's hint.
\<close>

theorem runLinters_error_report:
  assumes "runLinters reg lctx linters path d = Some e"
  shows "(\<exists>n \<in> set linters. reg n = None \<and> error_text e = ''Linter '' @ n @ '' is unknown'') \<or>
         (\<exists>n \<in> set linters. \<exists>l err. reg n = Some l \<and> LinterFunc l lctx path d = Some err \<and>
            unwrap e = Some err \<and> sublist n (error_text e) \<and> sublist path (error_text e) \<and>
            sublist (error_text err) (error_text e) \<and> sublist (Explain l) (error_text e))"
proof -
  obtain pre n post where n: "linters = pre @ n # post"
      and out: "check_outcome reg lctx path d n = Some e"
    using runLinters_SomeD [OF assms] by blast
  show ?thesis
  proof (cases "reg n")
    case None
    with n out show ?thesis by (auto simp: check_outcome_def)
  next
    case (Some l)
    with out obtain err where err: "LinterFunc l lctx path d = Some err"
        and e: "e = linter_failed n path err (Explain l)"
      by (auto simp: check_outcome_def)
    have msg: "error_text e = ''Linter '' @ n @ '' failed at path '' @ [quote] @ path @ [quote] @ '': ''
        @ error_text err @ ''; suggest: '' @ Explain l"
      by (simp add: e linter_failed_def)
    have "sublist n (error_text e)"
      by (rule sublist_middle [of _ "''Linter ''" _ "'' failed at path '' @ [quote] @ path @ [quote] @
          '': '' @ error_text err @ ''; suggest: '' @ Explain l"]) (simp add: msg)
    moreover have "sublist path (error_text e)"
      by (rule sublist_middle [of _ "''Linter '' @ n @ '' failed at path '' @ [quote]" _
          "[quote] @ '': '' @ error_text err @ ''; suggest: '' @ Explain l"]) (simp add: msg)
    moreover have "sublist (error_text err) (error_text e)"
      by (rule sublist_middle [of _ "''Linter '' @ n @ '' failed at path '' @ [quote] @ path @ [quote] @ '': ''"
          _ "''; suggest: '' @ Explain l"]) (simp add: msg)
    moreover have "sublist (Explain l) (error_text e)"
      by (rule sublist_middle [of _ "''Linter '' @ n @ '' failed at path '' @ [quote] @ path @ [quote] @
          '': '' @ error_text err @ ''; suggest: ''" _ "[]"]) (simp add: msg)
    ultimately show ?thesis
      using n Some err e by (auto simp: linter_failed_def)
  qed
qed

text \<open>
  C5. A requested check name that is not registered makes the run fail, whatever the
  tree.
\<close>

theorem lintPackageFs_unknown_linter:
  fixes lctx :: "('cfg, 'chk) LinterContext"
  assumes "n \<in> set linters" and "(Linters :: go_string \<rightharpoonup> ('cfg, 'chk) Linter) n = None"
  shows "lintPackageFs lctx fsys linters \<noteq> None"
proof -
  obtain ev evs where evs: "walk_events fsys ''.'' = ev # evs"
    using walk_events_nonempty by (meson neq_Nil_conv)
  show ?thesis
  proof
    assume "lintPackageFs lctx fsys linters = None"
    then obtain d where
      "\<forall>n \<in> set linters. \<exists>l. Linters n = Some l \<and> LinterFunc l lctx (fst ev) d = None"
      unfolding lintPackageFs_None_conv evs by (cases ev) auto
    with assms(1) obtain l :: "('cfg, 'chk) Linter" where "Linters n = Some l" by blast
    with assms(2) show False by simp
  qed
qed

section \<open>The callback and the order of the checks\<close>

text \<open>
  C19. Whether the enforcer passes depends only on the set of requested check names:
  reordering the list or repeating a name may change which failure is reported, never
  whether the run fails.
\<close>

theorem lintPackageFs_order_irrelevant:
  assumes "set linters = set linters'"
  shows "lintPackageFs lctx fsys linters = None \<longleftrightarrow> lintPackageFs lctx fsys linters' = None"
  using assms by (simp add: lintPackageFs_None_conv)

text \<open>
  C20. The walk callback never returns \<open>fs.SkipDir\<close> or \<open>fs.SkipAll\<close>, whatever the
  registered checks return: every error it returns is built by \<open>fmt.Errorf\<close>, so no
  check, even one returning a sentinel, can make \<open>fs.WalkDir\<close> skip part of the tree
  or stop early without an error.
\<close>

theorem walkCb_never_sentinel:
  "walkCb reg lctx linters path arg \<noteq> Some SkipDir \<and> walkCb reg lctx linters path arg \<noteq> Some SkipAll"
  using walkCb_no_sentinel [of reg lctx linters] unfolding no_sentinel_def by blast

text \<open>
  C21. With no checks requested the enforcer still walks the whole tree, and it fails
  exactly when the tree cannot be read: the root's stat or the reading of some directory
  reports an error.
\<close>

theorem lintPackageFs_no_checks:
  "lintPackageFs lctx fsys [] = None \<longleftrightarrow> fs_clean fsys"
  by (simp add: lintPackageFs_None_conv fs_clean_iff_entries [of fsys "''.''"])

lemma lintPackageFs_append_None_conv:
  "lintPackageFs lctx fsys (l1 @ l2) = None \<longleftrightarrow>
     lintPackageFs lctx fsys l1 = None \<and> lintPackageFs lctx fsys l2 = None"
proof
  assume "lintPackageFs lctx fsys (l1 @ l2) = None"
  then show "lintPackageFs lctx fsys l1 = None \<and> lintPackageFs lctx fsys l2 = None"
    unfolding lintPackageFs_None_conv by fastforce
next
  assume "lintPackageFs lctx fsys l1 = None \<and> lintPackageFs lctx fsys l2 = None"
  then have 1: "\<forall>(p, a) \<in> set (walk_events fsys ''.''). \<exists>d. a = WEntry d \<and>
      (\<forall>n \<in> set l1. \<exists>l. Linters n = Some l \<and> LinterFunc l lctx p d = None)"
    and 2: "\<forall>(p, a) \<in> set (walk_events fsys ''.''). \<exists>d. a = WEntry d \<and>
      (\<forall>n \<in> set l2. \<exists>l. Linters n = Some l \<and> LinterFunc l lctx p d = None)"
    unfolding lintPackageFs_None_conv by blast+
  show "lintPackageFs lctx fsys (l1 @ l2) = None"
    unfolding lintPackageFs_None_conv
  proof (intro ballI, clarify)
    fix p a
    assume mem: "(p, a) \<in> set (walk_events fsys ''.'')"
    from 1 mem obtain d where d: "a = WEntry d"
      and l1: "\<forall>n \<in> set l1. \<exists>l. Linters n = Some l \<and> LinterFunc l lctx p d = None" by blast
    from 2 mem d have l2: "\<forall>n \<in> set l2. \<exists>l. Linters n = Some l \<and> LinterFunc l lctx p d = None"
      by auto
    from d l1 l2 show "\<exists>d. a = WEntry d \<and>
        (\<forall>n \<in> set (l1 @ l2). \<exists>l. Linters n = Some l \<and> LinterFunc l lctx p d = None)" by auto
  qed
qed

text \<open>
  C13. Checks compose: a list of checks passes exactly when each part of it passes on
  its own, so the run with several checks passes exactly when every check alone
  passes, and a traversal error fails every run.
\<close>

theorem lintPackageFs_append:
  "lintPackageFs lctx fsys (l1 @ l2) = None \<longleftrightarrow>
     lintPackageFs lctx fsys l1 = None \<and> lintPackageFs lctx fsys l2 = None"
  by (rule lintPackageFs_append_None_conv)

end
