(* ===== verification/FsPaths.thy ===== *)
theory FsPaths
  imports IoFs
begin

text \<open>
  The entries of a file tree and the paths the walk gives them. \<open>path_of cs\<close> is
  the path \<open>fs.WalkDir\<close> passes for the entry reached by the names \<open>cs\<close> from
  the root, built the way \<open>walkDir\<close> builds it, by \<open>path.Join\<close> from \<open>"."\<close>.
  \<open>tree_entries\<close> lists every entry of a tree with its names and its
  \<open>fs.DirEntry\<close>, in the order of the walk; \<open>readable_events_entries\<close> shows
  that on a tree that reads without error the calls of the walk are exactly these
  entries at these paths.

  A well-formed tree (\<open>wf_tree\<close>) is what a real file system returns: the names of a
  directory are distinct and each is a valid path element (non-empty, no slash, not
  \<open>.\<close> or \<open>..\<close>). On such a tree the entries are distinct, the path of an entry is
  its names joined by slashes (\<open>path_of_Cons\<close>), different entries have different
  paths (\<open>path_of_inj\<close>), and a path starts with \<open>d1/.../dk/\<close> exactly when the entry
  lies strictly inside the directory \<open>d1/.../dk\<close> (\<open>prefix_path_of\<close>).
\<close>

section \<open>Well-formed trees and the entries of a tree\<close>

definition valid_name :: "go_string \<Rightarrow> bool" where
  "valid_name nm \<longleftrightarrow> nm \<noteq> [] \<and> CHR ''/'' \<notin> set nm \<and> nm \<noteq> ''.'' \<and> nm \<noteq> ''..''"

fun wf_tree :: "fs_tree \<Rightarrow> bool" where
  "wf_tree (FsNode info dir) =
     (case dir of
        None \<Rightarrow> True
      | Some (rerr, ents) \<Rightarrow>
          distinct (map fst ents) \<and> list_all (\<lambda>(nm, t). valid_name nm \<and> wf_tree t) ents)"

fun path_from :: "go_string \<Rightarrow> go_string list \<Rightarrow> go_string" where
  "path_from name [] = name"
| "path_from name (c # cs) = path_from (pathJoin name c) cs"

definition path_of :: "go_string list \<Rightarrow> go_string" where
  "path_of cs = path_from ''.'' cs"

function entries_dir :: "go_string list \<Rightarrow> go_string \<Rightarrow> fs_tree \<Rightarrow> (go_string list \<times> DirEntry) list"
  and entries_list :: "go_string list \<Rightarrow> (go_string \<times> fs_tree) list \<Rightarrow> (go_string list \<times> DirEntry) list"
where
  "entries_dir cs nm (FsNode info dir) =
     (cs, entry_of nm (FsNode info dir)) #
       (case dir of None \<Rightarrow> [] | Some (rerr, ents) \<Rightarrow> entries_list cs (ReadDir ents))"
| "entries_list cs [] = []"
| "entries_list cs ((nm, t) # rest) = entries_dir (cs @ [nm]) nm t @ entries_list cs rest"
  by pat_completeness auto
termination
  by (relation "measure (case_sum (\<lambda>(cs, nm, t). size t)
      (\<lambda>(cs, ents). size_list (size_prod (\<lambda>_. 0) size) ents))")
     (auto simp: size_ReadDir)

definition tree_entries :: "fs_tree \<Rightarrow> (go_string list \<times> DirEntry) list" where
  "tree_entries fsys = entries_dir [] ''.'' fsys"

lemma path_from_snoc: "path_from name (cs @ [nm]) = pathJoin (path_from name cs) nm"
  by (induction cs arbitrary: name) simp_all

lemma path_of_snoc: "path_of (cs @ [nm]) = pathJoin (path_of cs) nm"
  by (simp add: path_of_def path_from_snoc)

lemma readable_events_entries:
  shows "readable t \<Longrightarrow>
           events_dir (path_of cs) nm t = map (\<lambda>(cs', d). (path_of cs', WEntry d)) (entries_dir cs nm t)"
    and "list_all (\<lambda>(nm, t). readable t) ents \<Longrightarrow>
           events_list (path_of cs) ents = map (\<lambda>(cs', d). (path_of cs', WEntry d)) (entries_list cs ents)"
proof (induction cs nm t and cs ents rule: entries_dir_entries_list.induct)
  case (1 cs nm info dir)
  then show ?case
    by (auto simp: Let_def ReadDir_def list_all_iff split: option.splits)
next
  case (2 cs)
  then show ?case by simp
next
  case (3 cs nm t rest)
  then show ?case by (simp add: path_of_snoc)
qed

section \<open>Paths of well-formed trees\<close>

definition slash_join :: "go_string list \<Rightarrow> go_string" where
  "slash_join cs = concat (map (\<lambda>c. ''/'' @ c) cs)"

lemma slash_join_simps [simp]:
  "slash_join [] = []" "slash_join (c # cs) = CHR ''/'' # c @ slash_join cs"
  by (simp_all add: slash_join_def)

lemma slash_ne_dot: "CHR ''/'' \<in> set s \<Longrightarrow> s \<noteq> ''.''"
  by auto

lemma path_from_valid:
  "list_all valid_name cs \<Longrightarrow> name \<noteq> ''.'' \<Longrightarrow> path_from name cs = name @ slash_join cs"
proof (induction cs arbitrary: name)
  case Nil
  then show ?case by simp
next
  case (Cons c cs)
  then have "path_from name (c # cs) = path_from (name @ ''/'' @ c) cs"
    by (simp add: pathJoin_def)
  also have "\<dots> = name @ ''/'' @ c @ slash_join cs"
    using Cons.IH [of "name @ ''/'' @ c"] Cons.prems by (simp add: slash_ne_dot)
  finally show ?case by simp
qed

lemma path_of_Cons:
  "list_all valid_name (c # cs) \<Longrightarrow> path_of (c # cs) = c @ slash_join cs"
  by (simp add: path_of_def pathJoin_def path_from_valid valid_name_def)

lemma path_of_Nil: "path_of [] = ''.''"
  by (simp add: path_of_def)

lemma prefix_slash_name:
  assumes "CHR ''/'' \<notin> set d" "CHR ''/'' \<notin> set c" "v = [] \<or> hd v = CHR ''/''"
  shows "prefix (d @ CHR ''/'' # u) (c @ v) \<longleftrightarrow> d = c \<and> prefix (CHR ''/'' # u) v"
  using assms
proof (induction d arbitrary: c)
  case Nil
  then show ?case by (cases c) auto
next
  case (Cons a d)
  then show ?case by (cases c; cases v) auto
qed

lemma slash_join_hd: "slash_join cs = [] \<or> hd (slash_join cs) = CHR ''/''"
  by (cases cs) simp_all

lemma prefix_name_slash_join:
  assumes "valid_name d" "valid_name c"
  shows "prefix (d @ slash_join ds @ ''/'') (c @ slash_join cs) \<longleftrightarrow>
           d = c \<and> prefix (slash_join ds @ ''/'') (slash_join cs)"
proof -
  obtain u where u: "slash_join ds @ ''/'' = CHR ''/'' # u"
    using slash_join_hd [of ds] by (cases "slash_join ds") auto
  show ?thesis
    using prefix_slash_name [of d c "slash_join cs" u] slash_join_hd [of cs] assms
    by (simp add: u valid_name_def)
qed

lemma prefix_slash_join:
  "list_all valid_name ds \<Longrightarrow> list_all valid_name cs \<Longrightarrow>
     prefix (slash_join ds @ ''/'') (slash_join cs) \<longleftrightarrow> (\<exists>x rest. cs = ds @ x # rest)"
proof (induction ds arbitrary: cs)
  case Nil
  then show ?case by (cases cs) simp_all
next
  case (Cons d ds)
  then show ?case
    by (cases cs) (auto simp: prefix_name_slash_join [simplified])
qed

theorem prefix_path_of:
  assumes "ds \<noteq> []" "list_all valid_name ds" "list_all valid_name cs"
  shows "prefix (path_of ds @ ''/'') (path_of cs) \<longleftrightarrow> (\<exists>x rest. cs = ds @ x # rest)"
proof (cases ds)
  case Nil
  with assms show ?thesis by simp
next
  case (Cons d ds')
  show ?thesis
  proof (cases cs)
    case Nil
    have "\<not> prefix (path_of ds @ ''/'') ''.''"
      using set_mono_prefix [of "path_of ds @ ''/''" "''.''"] by auto
    with Nil show ?thesis by (simp add: path_of_Nil)
  next
    case (Cons c cs')
    with \<open>ds = d # ds'\<close> assms show ?thesis
      by (auto simp: path_of_Cons prefix_name_slash_join prefix_slash_join)
  qed
qed

section \<open>Each entry once\<close>

lemma ReadDir_set [simp]: "set (ReadDir ents) = set ents"
  by (simp add: ReadDir_def)

lemma ReadDir_distinct_names: "distinct (map fst (ReadDir ents)) \<longleftrightarrow> distinct (map fst ents)"
  by (rule mset_eq_imp_distinct_iff) (simp add: ReadDir_def)

lemma entries_below:
  shows "x \<in> fst ` set (entries_dir cs nm t) \<Longrightarrow> \<exists>rest. x = cs @ rest"
    and "x \<in> fst ` set (entries_list cs ents) \<Longrightarrow>
           \<exists>nm t rest. (nm, t) \<in> set ents \<and> x = cs @ nm # rest"
proof (induction cs nm t and cs ents arbitrary: x and x rule: entries_dir_entries_list.induct)
  case (1 cs nm info dir)
  then show ?case by (fastforce split: option.splits)
next
  case (2 cs)
  then show ?case by simp
next
  case (3 cs nm t rest)
  then show ?case by fastforce
qed

lemma entries_distinct:
  shows "wf_tree t \<Longrightarrow> distinct (map fst (entries_dir cs nm t))"
    and "distinct (map fst ents) \<Longrightarrow> list_all (\<lambda>(nm, t). wf_tree t) ents \<Longrightarrow>
           distinct (map fst (entries_list cs ents))"
proof (induction cs nm t and cs ents rule: entries_dir_entries_list.induct)
  case (1 cs nm info dir)
  show ?case
  proof (cases dir)
    case None
    then show ?thesis by simp
  next
    case (Some a)
    then obtain rerr ents where dir: "dir = Some (rerr, ents)" by (cases a) auto
    with "1.prems" have "distinct (map fst (ReadDir ents))"
      and "list_all (\<lambda>(nm, t). wf_tree t) (ReadDir ents)"
      by (auto simp: ReadDir_distinct_names list_all_iff)
    then have "distinct (map fst (entries_list cs (ReadDir ents)))"
      using "1.IH" dir by simp
    moreover have "cs \<notin> fst ` set (entries_list cs (ReadDir ents))"
      using entries_below(2) [of cs cs "ReadDir ents"] by auto
    ultimately show ?thesis using dir by simp
  qed
next
  case (2 cs)
  then show ?case by simp
next
  case (3 cs nm t rest)
  have "fst ` set (entries_dir (cs @ [nm]) nm t) \<inter> fst ` set (entries_list cs rest) = {}"
  proof (intro equalityI subsetI)
    fix x
    assume "x \<in> fst ` set (entries_dir (cs @ [nm]) nm t) \<inter> fst ` set (entries_list cs rest)"
    then have a: "x \<in> fst ` set (entries_dir (cs @ [nm]) nm t)"
      and b: "x \<in> fst ` set (entries_list cs rest)" by auto
    obtain r1 where x1: "x = cs @ nm # r1" using entries_below(1) [OF a] by auto
    obtain nm' t' r2 where "(nm', t') \<in> set rest" "x = cs @ nm' # r2"
      using entries_below(2) [OF b] by blast
    with x1 have "nm \<in> fst ` set rest" by force
    with "3.prems"(1) show "x \<in> {}" by simp
  qed simp
  with 3 show ?case by simp
qed

lemma entries_valid:
  shows "wf_tree t \<Longrightarrow> list_all valid_name cs \<Longrightarrow>
           x \<in> fst ` set (entries_dir cs nm t) \<Longrightarrow> list_all valid_name x"
    and "list_all (\<lambda>(nm, t). valid_name nm \<and> wf_tree t) ents \<Longrightarrow> list_all valid_name cs \<Longrightarrow>
           x \<in> fst ` set (entries_list cs ents) \<Longrightarrow> list_all valid_name x"
proof (induction cs nm t and cs ents arbitrary: x and x rule: entries_dir_entries_list.induct)
  case (1 cs nm info dir)
  then show ?case by (fastforce simp: list_all_iff split: option.splits)
next
  case (2 cs)
  then show ?case by simp
next
  case (3 cs nm t rest)
  then show ?case by auto
qed

lemma name_split:
  assumes "CHR ''/'' \<notin> set c" "CHR ''/'' \<notin> set c'"
    "v = [] \<or> hd v = CHR ''/''" "v' = [] \<or> hd v' = CHR ''/''"
  shows "c @ v = c' @ v' \<longleftrightarrow> c = c' \<and> v = v'"
  using assms
proof (induction c arbitrary: c')
  case Nil
  then show ?case by (cases c'; cases v) auto
next
  case (Cons a c)
  then show ?case by (cases c'; cases v') auto
qed

lemma slash_join_inj:
  "list_all valid_name cs \<Longrightarrow> list_all valid_name cs' \<Longrightarrow> slash_join cs = slash_join cs' \<Longrightarrow> cs = cs'"
proof (induction cs arbitrary: cs')
  case Nil
  then show ?case by (cases cs') simp_all
next
  case (Cons c cs)
  then obtain c' cs'' where cs': "cs' = c' # cs''" by (cases cs') auto
  with Cons.prems have "c = c' \<and> slash_join cs = slash_join cs''"
    using name_split [of c c' "slash_join cs" "slash_join cs''"] slash_join_hd [of cs]
      slash_join_hd [of cs''] by (simp add: valid_name_def)
  with Cons cs' show ?case by simp
qed

lemma path_of_Cons_ne_dot: "list_all valid_name (c # cs) \<Longrightarrow> path_of (c # cs) \<noteq> ''.''"
  by (cases cs) (auto simp: path_of_Cons valid_name_def intro!: slash_ne_dot)

theorem path_of_inj:
  assumes "list_all valid_name cs" "list_all valid_name cs'" "path_of cs = path_of cs'"
  shows "cs = cs'"
proof (cases cs)
  case Nil
  with assms path_of_Cons_ne_dot show ?thesis by (cases cs') (auto simp: path_of_Nil)
next
  case (Cons c r)
  with assms path_of_Cons_ne_dot obtain c' r' where cs': "cs' = c' # r'"
    by (cases cs') (auto simp: path_of_Nil)
  with Cons assms have "c = c' \<and> slash_join r = slash_join r'"
    using name_split [of c c' "slash_join r" "slash_join r'"] slash_join_hd [of r]
      slash_join_hd [of r'] by (simp add: path_of_Cons valid_name_def)
  with Cons cs' assms show ?thesis by (simp add: slash_join_inj)
qed

end
