(* ===== verification/TreeContracts.thy ===== *)
theory TreeContracts
  imports Enforcer FsPaths
begin

text \<open>
  What the enforcer promises about the package's file tree, stated on the entries of the
  tree rather than on the calls of the walk. On a tree that reads without error,
  \<open>lintPackageFs\<close> runs the linter loop once on each entry, in the walk's order; on a well-formed tree the three path checks reject exactly the packages with
  something inside the directories their patterns name: \<open>usr/local\<close> (C16), the
  temporary directories \<open>tmp\<close>, \<open>run\<close>, \<open>var/tmp\<close> and \<open>var/run\<close> (C17),
  and \<open>var/empty\<close> (C18); together with the mode bits of every entry, this gives the
  contract of the default check set (C14). The directories themselves pass: the patterns end in a
  slash, and a directory's own path has none at its end.
\<close>

section \<open>Entries inside a directory\<close>

definition inside :: "go_string list \<Rightarrow> go_string list \<Rightarrow> bool" where
  "inside ds cs \<longleftrightarrow> prefix ds cs \<and> length ds < length cs"

definition has_entry_inside :: "fs_tree \<Rightarrow> go_string list \<Rightarrow> bool" where
  "has_entry_inside fsys ds = list_ex (\<lambda>(cs, d). inside ds cs) (tree_entries fsys)"

lemma inside_iff: "inside ds cs \<longleftrightarrow> (\<exists>x rest. cs = ds @ x # rest)"
  by (auto simp: inside_def prefix_def neq_Nil_conv)

section \<open>The enforcer over the entries of the tree\<close>

lemma walk_events_tree_entries:
  "fs_clean fsys \<Longrightarrow>
     walk_events fsys ''.'' = map (\<lambda>(cs, d). (path_of cs, WEntry d)) (tree_entries fsys)"
  using readable_events_entries(1) [of fsys "[]" "''.''"]
  by (auto simp: fs_clean_def walk_events_def tree_entries_def path_of_Nil split: sum.split)

lemma lintPackageFs_entries:
  "fs_clean fsys \<Longrightarrow>
     lintPackageFs lctx fsys linters =
       first_some (\<lambda>(cs, d). runLinters Linters lctx linters (path_of cs) d) (tree_entries fsys)"
  by (simp add: lintPackageFs_walk walk_events_tree_entries first_some_map comp_def
      split_def walkCb_def)

lemma lintPackageFs_single_entries:
  fixes lctx :: "('cfg, 'chk) LinterContext"
  assumes "fs_clean fsys" and "(Linters :: go_string \<rightharpoonup> ('cfg, 'chk) Linter) n = Some l"
  shows "lintPackageFs lctx fsys [n] = None \<longleftrightarrow>
           (\<forall>(cs, d) \<in> set (tree_entries fsys). LinterFunc l lctx (path_of cs) d = None)"
  using assms by (simp add: lintPackageFs_entries split_def runLinters_None_iff del: runLinters.simps)

lemma tree_entries_valid:
  "wf_tree fsys \<Longrightarrow> cs \<in> fst ` set (tree_entries fsys) \<Longrightarrow> list_all valid_name cs"
  using entries_valid(1) [of fsys "[]" cs "''.''"] by (simp add: tree_entries_def)

lemma prefix_entry_path:
  assumes "wf_tree fsys" "cs \<in> fst ` set (tree_entries fsys)" "ds \<noteq> []" "list_all valid_name ds"
  shows "prefix (path_of ds @ ''/'') (path_of cs) \<longleftrightarrow> inside ds cs"
  using prefix_path_of [OF assms(3,4) tree_entries_valid [OF assms(1,2)]] by (simp add: inside_iff)

lemma entry_prefixes:
  assumes "wf_tree fsys" "cs \<in> fst ` set (tree_entries fsys)"
  shows "prefix ''usr/local/'' (path_of cs) \<longleftrightarrow> inside [''usr'', ''local''] cs"
    and "prefix ''var/empty/'' (path_of cs) \<longleftrightarrow> inside [''var'', ''empty''] cs"
    and "prefix ''tmp/'' (path_of cs) \<longleftrightarrow> inside [''tmp''] cs"
    and "prefix ''run/'' (path_of cs) \<longleftrightarrow> inside [''run''] cs"
    and "prefix ''var/tmp/'' (path_of cs) \<longleftrightarrow> inside [''var'', ''tmp''] cs"
    and "prefix ''var/run/'' (path_of cs) \<longleftrightarrow> inside [''var'', ''run''] cs"
  using prefix_entry_path [OF assms, of "[''usr'', ''local'']"]
    prefix_entry_path [OF assms, of "[''var'', ''empty'']"]
    prefix_entry_path [OF assms, of "[''tmp'']"] prefix_entry_path [OF assms, of "[''run'']"]
    prefix_entry_path [OF assms, of "[''var'', ''tmp'']"]
    prefix_entry_path [OF assms, of "[''var'', ''run'']"]
  by (simp_all add: path_of_def pathJoin_def valid_name_def)

section \<open>The checks as promises about the tree\<close>

lemma usrlocal_contents_iff:
  assumes "fs_clean fsys" "wf_tree fsys"
  shows "lintPackageFs lctx fsys [''usrlocal''] = None \<longleftrightarrow>
           suffix ''-compat'' (pkgname lctx) \<or> \<not> has_entry_inside fsys [''usr'', ''local'']"
proof -
  have "lintPackageFs lctx fsys [''usrlocal''] = None \<longleftrightarrow>
      (\<forall>(cs, d) \<in> set (tree_entries fsys).
         suffix ''-compat'' (pkgname lctx) \<or> \<not> prefix ''usr/local/'' (path_of cs))"
    by (simp add: lintPackageFs_single_entries [OF assms(1) Linters_simps(3)] linter_None_iff)
  also have "\<dots> \<longleftrightarrow> (\<forall>(cs, d) \<in> set (tree_entries fsys).
      suffix ''-compat'' (pkgname lctx) \<or> \<not> inside [''usr'', ''local''] cs)"
  proof (rule ball_pairs_cong)
    fix cs d
    assume "cs \<in> fst ` set (tree_entries fsys)"
    from entry_prefixes [OF assms(2) this]
    show "(suffix ''-compat'' (pkgname lctx) \<or> \<not> prefix ''usr/local/'' (path_of cs)) \<longleftrightarrow>
        (suffix ''-compat'' (pkgname lctx) \<or> \<not> inside [''usr'', ''local''] cs)" by simp
  qed
  finally show ?thesis by (auto simp: has_entry_inside_def list_ex_iff)
qed

text \<open>
  C16. On a well-formed tree that reads without error, \<open>usrlocal\<close> alone passes
  exactly when the package name ends in \<open>-compat\<close> or the tree has no entry inside
  \<open>usr/local\<close>.
\<close>

theorem usrlocal_contents:
  assumes "fs_clean fsys" "wf_tree fsys"
  shows "lintPackageFs lctx fsys [''usrlocal''] = None \<longleftrightarrow>
           suffix ''-compat'' (pkgname lctx) \<or> \<not> has_entry_inside fsys [''usr'', ''local'']"
  by (rule usrlocal_contents_iff [OF assms])

lemma tempdir_contents_iff:
  assumes "fs_clean fsys" "wf_tree fsys"
  shows "lintPackageFs lctx fsys [''tempdir''] = None \<longleftrightarrow>
           \<not> (has_entry_inside fsys [''tmp''] \<or> has_entry_inside fsys [''run''] \<or>
              has_entry_inside fsys [''var'', ''tmp''] \<or> has_entry_inside fsys [''var'', ''run''])"
proof -
  have "lintPackageFs lctx fsys [''tempdir''] = None \<longleftrightarrow>
      (\<forall>(cs, d) \<in> set (tree_entries fsys).
         \<not> (prefix ''tmp/'' (path_of cs) \<or> prefix ''run/'' (path_of cs) \<or>
            prefix ''var/tmp/'' (path_of cs) \<or> prefix ''var/run/'' (path_of cs)))"
    by (simp add: lintPackageFs_single_entries [OF assms(1) Linters_simps(2)] linter_None_iff)
  also have "\<dots> \<longleftrightarrow> (\<forall>(cs, d) \<in> set (tree_entries fsys).
      \<not> (inside [''tmp''] cs \<or> inside [''run''] cs \<or> inside [''var'', ''tmp''] cs \<or>
         inside [''var'', ''run''] cs))"
  proof (rule ball_pairs_cong)
    fix cs d
    assume "cs \<in> fst ` set (tree_entries fsys)"
    from entry_prefixes [OF assms(2) this]
    show "\<not> (prefix ''tmp/'' (path_of cs) \<or> prefix ''run/'' (path_of cs) \<or>
            prefix ''var/tmp/'' (path_of cs) \<or> prefix ''var/run/'' (path_of cs)) \<longleftrightarrow>
          \<not> (inside [''tmp''] cs \<or> inside [''run''] cs \<or> inside [''var'', ''tmp''] cs \<or>
             inside [''var'', ''run''] cs)" by simp
  qed
  finally show ?thesis by (auto simp: has_entry_inside_def list_ex_iff)
qed

text \<open>
  C17. On a well-formed tree that reads without error, \<open>tempdir\<close> alone passes
  exactly when the tree has no entry inside \<open>tmp\<close>, \<open>run\<close>, \<open>var/tmp\<close> or
  \<open>var/run\<close>.
\<close>

theorem tempdir_contents:
  assumes "fs_clean fsys" "wf_tree fsys"
  shows "lintPackageFs lctx fsys [''tempdir''] = None \<longleftrightarrow>
           \<not> (has_entry_inside fsys [''tmp''] \<or> has_entry_inside fsys [''run''] \<or>
              has_entry_inside fsys [''var'', ''tmp''] \<or> has_entry_inside fsys [''var'', ''run''])"
  by (rule tempdir_contents_iff [OF assms])

lemma varempty_contents_iff:
  assumes "fs_clean fsys" "wf_tree fsys"
  shows "lintPackageFs lctx fsys [''varempty''] = None \<longleftrightarrow>
           \<not> has_entry_inside fsys [''var'', ''empty'']"
proof -
  have "lintPackageFs lctx fsys [''varempty''] = None \<longleftrightarrow>
      (\<forall>(cs, d) \<in> set (tree_entries fsys). \<not> prefix ''var/empty/'' (path_of cs))"
    by (simp add: lintPackageFs_single_entries [OF assms(1) Linters_simps(4)] linter_None_iff)
  also have "\<dots> \<longleftrightarrow> (\<forall>(cs, d) \<in> set (tree_entries fsys). \<not> inside [''var'', ''empty''] cs)"
  proof (rule ball_pairs_cong)
    fix cs d
    assume "cs \<in> fst ` set (tree_entries fsys)"
    from entry_prefixes [OF assms(2) this]
    show "\<not> prefix ''var/empty/'' (path_of cs) \<longleftrightarrow> \<not> inside [''var'', ''empty''] cs" by simp
  qed
  finally show ?thesis by (auto simp: has_entry_inside_def list_ex_iff)
qed

text \<open>
  C18. On a well-formed tree that reads without error, \<open>varempty\<close> alone passes
  exactly when the tree has no entry inside \<open>var/empty\<close>.
\<close>

theorem varempty_contents:
  assumes "fs_clean fsys" "wf_tree fsys"
  shows "lintPackageFs lctx fsys [''varempty''] = None \<longleftrightarrow>
           \<not> has_entry_inside fsys [''var'', ''empty'']"
  by (rule varempty_contents_iff [OF assms])

lemma tree_entries_distinct_paths:
  "wf_tree fsys \<Longrightarrow> distinct (map (\<lambda>(cs, d). path_of cs) (tree_entries fsys))"
proof -
  assume wf: "wf_tree fsys"
  have "distinct (map fst (tree_entries fsys))"
    using entries_distinct(1) [OF wf] by (simp add: tree_entries_def)
  moreover have "inj_on path_of (fst ` set (tree_entries fsys))"
    using tree_entries_valid [OF wf] by (auto intro!: inj_onI path_of_inj)
  ultimately have "distinct (map path_of (map fst (tree_entries fsys)))"
    by (simp only: distinct_map set_map)
  then show ?thesis by (simp add: split_def comp_def)
qed

lemma setuidgid_entries_iff:
  assumes "fs_clean fsys"
  shows "lintPackageFs lctx fsys [''setuidgid''] = None \<longleftrightarrow>
           (\<forall>(cs, d) \<in> set (tree_entries fsys). \<exists>m. Info d = Inr m \<and> \<not> bit m 23 \<and> \<not> bit m 22)"
  by (simp add: lintPackageFs_single_entries [OF assms Linters_simps(1)] linter_None_iff)

lemma default_linters_split:
  "[''setuidgid'', ''tempdir'', ''usrlocal'', ''varempty''] =
     [''setuidgid''] @ [''tempdir''] @ [''usrlocal''] @ [''varempty'']"
  by simp

text \<open>
  C14. The contract of the default check set (\<open>setuidgid\<close>, \<open>tempdir\<close>,
  \<open>usrlocal\<close>, \<open>varempty\<close>) on a well-formed tree that reads without error: the run
  passes exactly when every entry's \<open>Info()\<close> gives a mode with neither the setuid
  nor the setgid bit, nothing lies inside \<open>tmp\<close>, \<open>run\<close>, \<open>var/tmp\<close> or
  \<open>var/run\<close>, nothing lies inside \<open>usr/local\<close> unless the package is a
  \<open>-compat\<close> package, and nothing lies inside \<open>var/empty\<close>.
\<close>

theorem default_checks_contract:
  assumes "fs_clean fsys" "wf_tree fsys"
  shows "lintPackageFs lctx fsys [''setuidgid'', ''tempdir'', ''usrlocal'', ''varempty''] = None \<longleftrightarrow>
           (\<forall>(cs, d) \<in> set (tree_entries fsys). \<exists>m. Info d = Inr m \<and> \<not> bit m 23 \<and> \<not> bit m 22) \<and>
           \<not> (has_entry_inside fsys [''tmp''] \<or> has_entry_inside fsys [''run''] \<or>
              has_entry_inside fsys [''var'', ''tmp''] \<or> has_entry_inside fsys [''var'', ''run'']) \<and>
           (suffix ''-compat'' (pkgname lctx) \<or> \<not> has_entry_inside fsys [''usr'', ''local'']) \<and>
           \<not> has_entry_inside fsys [''var'', ''empty'']"
  by (simp only: default_linters_split lintPackageFs_append_None_conv setuidgid_entries_iff [OF assms(1)]
      tempdir_contents_iff [OF assms] usrlocal_contents_iff [OF assms] varempty_contents_iff [OF assms])

end
