(* ===== verification/SetidRemediation.thy ===== *)
theory SetidRemediation
  imports TreeContracts
begin

unbundle bit_operations_syntax

text \<open>
  The remediation the \<open>setuidgid\<close> check's hint asks for ("Unset the
  setuid/setgid bit on the relevant files"), as a transformation of the file tree:
  \<open>clear_setid\<close> clears both bits in the mode of every entry and changes nothing
  else (names, structure, read errors, \<open>Info()\<close> errors). The walk over the cleared
  tree makes the same calls at the same paths, each entry cleared
  (\<open>walk_events_clear\<close>). C22 shows that the check then passes unless some entry's
  \<open>Info()\<close> fails; C23 that every other check sees no difference.
\<close>

definition clear_mode :: "FileMode \<Rightarrow> FileMode" where
  "clear_mode m = m AND NOT (ModeSetuid OR ModeSetgid)"

fun clear_setid :: "fs_tree \<Rightarrow> fs_tree" where
  "clear_setid (FsNode info dir) =
     FsNode (map_sum id clear_mode info)
       (map_option (\<lambda>(rerr, ents). (rerr, map (\<lambda>(nm, t). (nm, clear_setid t)) ents)) dir)"

definition clear_entry :: "DirEntry \<Rightarrow> DirEntry" where
  "clear_entry d = d\<lparr>Info := map_sum id clear_mode (Info d)\<rparr>"

fun clear_arg :: "walk_arg \<Rightarrow> walk_arg" where
  "clear_arg (WEntry d) = WEntry (clear_entry d)"
| "clear_arg (WErr od e) = WErr (map_option clear_entry od) e"

lemma clear_mode_bits: "\<not> bit (clear_mode m) 23 \<and> \<not> bit (clear_mode m) 22"
  by (simp add: clear_mode_def bit_simps ModeSetuid_def ModeSetgid_def)

lemma entry_of_clear: "entry_of nm (clear_setid t) = clear_entry (entry_of nm t)"
  by (cases t) (simp add: entry_of_def clear_entry_def)

lemma ReadDir_clear:
  "ReadDir (map (\<lambda>(nm, t). (nm, clear_setid t)) ents) =
     map (\<lambda>(nm, t). (nm, clear_setid t)) (ReadDir ents)"
  unfolding ReadDir_def by (rule sort_key_map) auto

lemma events_clear:
  shows "events_dir name nm (clear_setid t) =
           map (\<lambda>(p, a). (p, clear_arg a)) (events_dir name nm t)"
    and "events_list name (map (\<lambda>(nm, t). (nm, clear_setid t)) ents) =
           map (\<lambda>(p, a). (p, clear_arg a)) (events_list name ents)"
proof (induction name nm t and name ents rule: events_dir_events_list.induct)
  case (1 name nm info dir)
  then show ?case
    by (auto simp: Let_def ReadDir_clear entry_of_clear [symmetric] split: option.splits)
next
  case (2 name)
  then show ?case by simp
next
  case (3 name nm t rest)
  then show ?case by simp
qed

lemma node_info_clear: "node_info (clear_setid t) = map_sum id clear_mode (node_info t)"
  by (cases t) simp

lemma walk_events_clear:
  "walk_events (clear_setid fsys) root = map (\<lambda>(p, a). (p, clear_arg a)) (walk_events fsys root)"
  by (simp add: walk_events_def node_info_clear events_clear(1) split: sum.split)

lemma entries_clear:
  shows "entries_dir cs nm (clear_setid t) =
           map (\<lambda>(cs, d). (cs, clear_entry d)) (entries_dir cs nm t)"
    and "entries_list cs (map (\<lambda>(nm, t). (nm, clear_setid t)) ents) =
           map (\<lambda>(cs, d). (cs, clear_entry d)) (entries_list cs ents)"
proof (induction cs nm t and cs ents rule: entries_dir_entries_list.induct)
  case (1 cs nm info dir)
  then show ?case
    by (auto simp: ReadDir_clear entry_of_clear [symmetric] split: option.splits)
next
  case (2 cs)
  then show ?case by simp
next
  case (3 cs nm t rest)
  then show ?case by simp
qed

lemma clear_arg_WEntry: "(\<exists>d. clear_arg a = WEntry d) \<longleftrightarrow> (\<exists>d. a = WEntry d)"
  by (cases a) auto

lemma fs_clean_clear: "fs_clean (clear_setid fsys) \<longleftrightarrow> fs_clean fsys"
  by (simp add: fs_clean_iff_entries [of _ "''.''"] walk_events_clear clear_arg_WEntry split_def)

lemma setuidgid_clear_entry:
  "isSetUidOrGidLinter lctx path (clear_entry d) = None \<longleftrightarrow> \<not> isl (Info d)"
  by (cases "Info d") (simp_all add: isSetUidOrGidLinter_eq clear_entry_def clear_mode_bits)

lemma Linters_other_ignore_entry:
  "Linters n = Some l \<Longrightarrow> n \<noteq> ''setuidgid'' \<Longrightarrow> LinterFunc l lctx path d = LinterFunc l lctx path d'"
  by (auto simp: Linters_def usrLocalLinter_def varEmptyLinter_def tempDirLinter_def
      split: if_splits)

lemma runLinters_clear:
  assumes "''setuidgid'' \<notin> set linters"
  shows "runLinters Linters lctx linters path (clear_entry d) = runLinters Linters lctx linters path d"
proof -
  have "check_outcome Linters lctx path (clear_entry d) n = check_outcome Linters lctx path d n"
    if "n \<in> set linters" for n
  proof -
    have "n \<noteq> ''setuidgid''" using that assms by auto
    then show ?thesis
      using Linters_other_ignore_entry [of n _ lctx path "clear_entry d" d]
      by (auto simp: check_outcome_def split: option.split)
  qed
  then show ?thesis by (simp add: runLinters_first_some cong: first_some_cong)
qed

lemma walkCb_clear:
  "''setuidgid'' \<notin> set linters \<Longrightarrow>
     walkCb Linters lctx linters path (clear_arg a) = walkCb Linters lctx linters path a"
  by (cases a) (simp_all add: walkCb_def runLinters_clear)

text \<open>
  C22. The remediation the \<open>setuidgid\<close> hint asks for works: on a tree that reads
  without error, once the setuid and setgid bits of every entry are cleared,
  \<open>setuidgid\<close> passes exactly when every entry's \<open>Info()\<close> succeeds; the only
  failures left are errors reading an entry's information.
\<close>

theorem setuidgid_after_clear:
  assumes "fs_clean fsys"
  shows "lintPackageFs lctx (clear_setid fsys) [''setuidgid''] = None \<longleftrightarrow>
           (\<forall>(cs, d) \<in> set (tree_entries fsys). \<not> isl (Info d))"
proof -
  have clean: "fs_clean (clear_setid fsys)" using assms by (simp add: fs_clean_clear)
  have ents: "tree_entries (clear_setid fsys) = map (\<lambda>(cs, d). (cs, clear_entry d)) (tree_entries fsys)"
    by (simp add: tree_entries_def entries_clear(1))
  show ?thesis
    by (simp add: lintPackageFs_single_entries [OF clean Linters_simps(1)] ents
        setuidgid_clear_entry split_def)
qed

text \<open>
  C23. Clearing the setuid and setgid bits changes nothing else the enforcer sees: for
  any list of checks without \<open>setuidgid\<close>, the result on the cleared tree is the
  result on the original tree, error included, since the walk's paths, its order and
  its traversal errors are unchanged and no other check reads the mode.
\<close>

theorem clear_setid_keeps_other_checks:
  assumes "''setuidgid'' \<notin> set linters"
  shows "lintPackageFs lctx (clear_setid fsys) linters = lintPackageFs lctx fsys linters"
proof -
  have "lintPackageFs lctx (clear_setid fsys) linters =
      first_some (case_prod (walkCb Linters lctx linters) \<circ> (\<lambda>(p, a). (p, clear_arg a)))
        (walk_events fsys ''.'')"
    by (simp add: lintPackageFs_walk walk_events_clear first_some_map)
  also have "\<dots> = first_some (case_prod (walkCb Linters lctx linters)) (walk_events fsys ''.'')"
    by (rule first_some_cong) (auto simp: walkCb_clear [OF assms])
  finally show ?thesis by (simp add: lintPackageFs_walk)
qed

end
