(* ===== verification/Spec2Isabelle.thy ===== *)
theory Spec2Isabelle
  imports SetidRemediation
begin

text \<open>
  \<^bold>\<open>A verified model of melange's package linter (src/pkg/build/linter.go).\<close>

  \<^bold>\<open>The program.\<close> Before a package is built, melange walks the package's staged file
  tree once and applies a caller-chosen list of named checks ("linters") to every entry.
  Two parts of the source interact: the \<^emph>\<open>registry\<close>, the package variable \<open>Linters\<close>
  mapping a check name to a check function and a hint, with the four checks
  \<open>usrLocalLinter\<close>, \<open>varEmptyLinter\<close>, \<open>tempDirLinter\<close> and
  \<open>isSetUidOrGidLinter\<close>; and the \<^emph>\<open>enforcer\<close> \<open>lintPackageFs\<close>, which hands a callback
  (\<open>walkCb\<close>) to Go's \<open>fs.WalkDir\<close>. The callback reports a traversal error with its
  path, or runs the requested checks on the entry in order, failing on an unknown name or
  on the first check that fails. The first error of any kind ends the walk. Three pieces
  of the Go standard library carry the behaviour and are modelled from their documented
  semantics: \<open>regexp\<close> (the four patterns), \<open>io/fs\<close> (file modes, directory entries,
  \<open>ReadDir\<close>, \<open>WalkDir\<close>) and Go's error values.

  \<^bold>\<open>The theories.\<close>
  \<^item> \<open>Prelude\<close>: \<open>first_some\<close>, the first \<open>Some\<close> of a function over a list (every
    fail-fast loop of the program is one), and lemmas on prefixes and suffixes.
  \<^item> \<open>GoErrors\<close>: \<open>go_error\<close> (\<open>fmt.Errorf\<close> with and without \<open>%w\<close>, file-system
    errors, the sentinels \<open>SkipDir\<close>/\<open>SkipAll\<close>), \<open>error_text\<close> (\<open>Error()\<close>),
    \<open>unwrap\<close> (\<open>errors.Unwrap\<close>), \<open>errors_is\<close>.
  \<^item> \<open>Regexp\<close>: the syntax trees of Go's patterns, a declarative matching relation
    \<open>re_match\<close>, the executable matcher \<open>ends\<close> and \<open>MatchString\<close> (unanchored search).
    \<open>ends_correct\<close>: the matcher computes the relation; \<open>MatchString_prefix\<close> and
    \<open>MatchString_suffix\<close>: a pattern \<open>^w\<close> matches exactly the strings starting with
    \<open>w\<close>, a pattern \<open>w$\<close> exactly those ending with \<open>w\<close>.
  \<^item> \<open>RegexpSyntax\<close>: \<open>regexp.Compile\<close> and \<open>regexp.MustCompile\<close> as the parse
    loop of \<open>regexp/syntax\<close> (a stack of frames, one per open parenthesis) for
    literals, escapes, \<open>|\<close>, \<open>( )\<close>, \<open>?\<close>, \<open>^\<close> and \<open>$\<close>.
    \<open>compile_print\<close>, \<open>print_compile\<close>, \<open>compile_wf\<close>: compiling and printing
    are inverse bijections between the accepted pattern strings and the well-formed
    trees, proved through one invariant principle for the loop
    (\<open>parse_loop_invariant\<close>).
  \<^item> \<open>IoFs\<close>: \<open>FileMode\<close> as \<open>32 word\<close> with \<open>ModeSetuid = 1 << 23\<close> and
    \<open>ModeSetgid = 1 << 22\<close>; \<open>DirEntry\<close>; the file tree \<open>fs_tree\<close>, each node with the
    result of \<open>Info()\<close> and, for a directory, of \<open>ReadDir\<close> (entries and error);
    \<open>ReadDir\<close> sorts by name; \<open>walkDir\<close>/\<open>walkDirList\<close>/\<open>WalkDir\<close> follow
    \<open>fs.walkDir\<close> and \<open>fs.WalkDir\<close> line by line, sentinels included.
    \<open>walk_events\<close> lists the calls a walk makes; \<open>WalkDir_first_some\<close>: for a callback
    that never returns a sentinel, the walk returns the callback's first error over that
    list. \<open>fs_clean\<close>: a tree whose root stats and whose directories all read.
  \<^item> \<open>FsPaths\<close>: the entries of a tree with the names leading to them
    (\<open>tree_entries\<close>) and the path the walk gives each (\<open>path_of\<close>); well-formed
    trees (\<open>wf_tree\<close>: distinct, valid names); on them paths are injective and a path
    starts with \<open>d/\<close> exactly when the entry is inside the directory \<open>d\<close>.
  \<^item> \<open>Linters\<close>: \<open>LinterContext\<close>, \<open>LinterFunc\<close>, \<open>Linter\<close>, the four patterns
    as \<open>MustCompile\<close> of the source's strings, the four checks and \<open>Linters\<close>; the
    trees the patterns compile to, each check's behaviour in terms of prefixes,
    suffixes and mode bits (\<open>*_result\<close>), and facts of the registry.
  \<^item> \<open>Enforcer\<close>: \<open>runLinters\<close> (the callback's loop), \<open>walkCb\<close>,
    \<open>lintPackageFs\<close>; the contract \<open>enforce_spec\<close> (first failing outcome over the
    walk's calls and, per entry, over the checks in order) and
    \<open>lintPackageFs_refines_spec\<close>; success and failure characterised, the fail-fast
    decomposition, the content of the reported error, unknown names, independence of
    the pass/fail result from the order of the check names, composition (a list passes
    exactly when each part passes), that the callback never
    returns a sentinel, and that with no checks the run fails exactly on an unreadable
    tree.
  \<^item> \<open>TreeContracts\<close>: the enforcer over the entries of the tree (the linter loop
    run on each entry in walk order) and the three path checks as promises about the tree's contents
    (nothing inside \<open>usr/local\<close>, the temporary directories, \<open>var/empty\<close>), and
    the contract of the default check set.
  \<^item> \<open>SetidRemediation\<close>: the fix the \<open>setuidgid\<close> hint asks for, clearing both
    bits on every entry (\<open>clear_setid\<close>): the check then fails only on \<open>Info()\<close>
    errors, and no other check's result changes.
  \<^item> This theory: the spec's run states \<open>NotStarted \<rightarrow> Walking \<rightarrow> Succeeded | Failed\<close>
    as the step relation \<open>enforce_step\<close>, with the invariant \<open>run_inv\<close> proved by
    rule induction, determinism, termination of every run and agreement of its final
    state with \<open>lintPackageFs\<close> (the refinement that ties the machine to the code); each check applied to a whole clean tree; concrete runs that
    witness the theorems and show where the code departs from the spec.

  \<^bold>\<open>Modelling choices.\<close> The walk is total: recursion on the finite tree, terminating by
  the size of the tree (\<open>ReadDir\<close> permutes, so it keeps the size), so no fuel is
  needed. \<open>path.Join\<close> is modelled for the names a file system returns (non-empty, no
  slash, not \<open>.\<close> or \<open>..\<close>), where it is \<open>dir/name\<close>, or \<open>name\<close> under the root
  \<open>"."\<close>. The configuration pointers of \<open>LinterContext\<close> are type parameters, since no
  check reads them. Strings are byte strings (\<open>string\<close>), compared byte-wise.

  \<^bold>\<open>Not modelled.\<close> The configuration package (\<open>config.Configuration\<close>,
  \<open>config.Checks\<close>) and the callers that choose the check list; the regular-expression
  engine beyond the operators the four patterns use; a mutation of the exported
  \<open>Linters\<close> map by other code (the enforcer's theorems are about the map as
  initialised). The pattern parser covers the syntax the four patterns use; on other
  syntax (classes, \<open>.\<close>, \<open>*\<close>, \<open>+\<close>, counted or lazy repetition, flags, UTF-8)
  \<open>compile\<close> returns \<open>None\<close> and \<open>MustCompile\<close> is unspecified, as a panic is; the
  simplification passes Go runs after parsing are not modelled, since they keep what a
  pattern matches. Every declaration and statement of \<open>linter.go\<close> is modelled; its
  remaining lines are the licence header, the package clause and the imports. The
  configuration package and the callers are not part of the source under
  \<open>src/\<close>, and \<open>linter.go\<close> only carries the configuration pointers, so
  nothing of them can be modelled from the code.
\<close>

section \<open>The enforcer as a state machine\<close>

datatype enforce_status = NotStarted | Walking | Succeeded | Failed go_error

record enforce_state =
  status :: enforce_status
  pending :: "(go_string \<times> walk_arg) list"

definition enforce_init :: "(go_string \<times> walk_arg) list \<Rightarrow> enforce_state" where
  "enforce_init evs = \<lparr>status = NotStarted, pending = evs\<rparr>"

inductive enforce_step ::
  "(go_string \<times> walk_arg \<Rightarrow> go_error option) \<Rightarrow> enforce_state \<Rightarrow> enforce_state \<Rightarrow> bool"
  for cb
where
  start: "status s = NotStarted \<Longrightarrow> enforce_step cb s (s\<lparr>status := Walking\<rparr>)"
| visit_ok: "status s = Walking \<Longrightarrow> pending s = ev # evs \<Longrightarrow> cb ev = None \<Longrightarrow>
     enforce_step cb s (s\<lparr>pending := evs\<rparr>)"
| visit_fail: "status s = Walking \<Longrightarrow> pending s = ev # evs \<Longrightarrow> cb ev = Some e \<Longrightarrow>
     enforce_step cb s (s\<lparr>status := Failed e, pending := evs\<rparr>)"
| finish: "status s = Walking \<Longrightarrow> pending s = [] \<Longrightarrow>
     enforce_step cb s (s\<lparr>status := Succeeded\<rparr>)"

inductive_cases enforce_stepE: "enforce_step cb s t"

definition terminal :: "enforce_state \<Rightarrow> bool" where
  "terminal s \<longleftrightarrow> (case status s of Succeeded \<Rightarrow> True | Failed e \<Rightarrow> True | _ \<Rightarrow> False)"

definition run_inv ::
  "(go_string \<times> walk_arg \<Rightarrow> go_error option) \<Rightarrow> (go_string \<times> walk_arg) list \<Rightarrow> enforce_state \<Rightarrow> bool"
where
  "run_inv cb evs s \<longleftrightarrow>
     (\<exists>pre. evs = pre @ pending s \<and>
        (case status s of
           NotStarted \<Rightarrow> pre = []
         | Walking \<Rightarrow> list_all (\<lambda>x. cb x = None) pre
         | Succeeded \<Rightarrow> list_all (\<lambda>x. cb x = None) pre \<and> pending s = []
         | Failed e \<Rightarrow> pre \<noteq> [] \<and> list_all (\<lambda>x. cb x = None) (butlast pre) \<and>
                       cb (last pre) = Some e))"

text \<open>
  The run machine is deterministic, as the spec's single-threaded, sequential
  enforcement requires: a state has at most one successor, whatever the callback.
\<close>

theorem enforce_step_deterministic:
  "enforce_step cb s t \<Longrightarrow> enforce_step cb s t' \<Longrightarrow> t = t'"
  by (auto elim!: enforce_stepE)

lemma terminal_no_step: "terminal s \<Longrightarrow> \<not> enforce_step cb s t"
  by (auto simp: terminal_def elim!: enforce_stepE)

lemma run_inv_init: "run_inv cb evs (enforce_init evs)"
  by (simp add: run_inv_def enforce_init_def)

lemma run_inv_step: "enforce_step cb s t \<Longrightarrow> run_inv cb evs s \<Longrightarrow> run_inv cb evs t"
proof (induction rule: enforce_step.induct)
  case (start s)
  then show ?case by (auto simp: run_inv_def)
next
  case (visit_ok s ev evs')
  then obtain pre where "evs = pre @ ev # evs'" "list_all (\<lambda>x. cb x = None) pre"
    by (auto simp: run_inv_def)
  with visit_ok.hyps show ?case
    by (auto simp: run_inv_def intro!: exI [of _ "pre @ [ev]"])
next
  case (visit_fail s ev evs' e)
  then obtain pre where "evs = pre @ ev # evs'" "list_all (\<lambda>x. cb x = None) pre"
    by (auto simp: run_inv_def)
  with visit_fail.hyps show ?case
    by (auto simp: run_inv_def intro!: exI [of _ "pre @ [ev]"])
next
  case (finish s)
  then show ?case by (auto simp: run_inv_def)
qed

text \<open>
  Every reachable state of a run satisfies \<open>run_inv\<close>: the calls consumed so far
  are a prefix of the walk's calls, all passed unless the state is \<open>Failed e\<close>, in
  which case the last of them gave \<open>e\<close>; a \<open>Succeeded\<close> run has consumed them all.
\<close>

lemma run_inv_reachable:
  "(enforce_step cb)\<^sup>*\<^sup>* (enforce_init evs) s \<Longrightarrow> run_inv cb evs s"
  by (induction rule: rtranclp_induct) (auto intro: run_inv_init run_inv_step)

lemma walking_reaches_terminal:
  "status s = Walking \<Longrightarrow>
     \<exists>t. (enforce_step cb)\<^sup>*\<^sup>* s t \<and> terminal t"
proof (induction "pending s" arbitrary: s)
  case Nil
  then have "enforce_step cb s (s\<lparr>status := Succeeded\<rparr>)" by (auto intro: finish)
  then show ?case by (auto simp: terminal_def)
next
  case (Cons ev evs)
  show ?case
  proof (cases "cb ev")
    case None
    from Cons.prems Cons.hyps(2) [symmetric] None
    have step: "enforce_step cb s (s\<lparr>pending := evs\<rparr>)"
      by (rule visit_ok)
    from Cons.prems obtain t where "(enforce_step cb)\<^sup>*\<^sup>* (s\<lparr>pending := evs\<rparr>) t" "terminal t"
      using Cons.hyps(1) [of "s\<lparr>pending := evs\<rparr>"] by auto
    with step show ?thesis by (meson converse_rtranclp_into_rtranclp)
  next
    case (Some e)
    from Cons.prems Cons.hyps(2) [symmetric] Some
    have "enforce_step cb s (s\<lparr>status := Failed e, pending := evs\<rparr>)"
      by (rule visit_fail)
    then show ?thesis by (auto simp: terminal_def)
  qed
qed

lemma run_inv_outcome:
  assumes "run_inv cb evs t" and "terminal t"
  shows "(status t = Succeeded \<longleftrightarrow> first_some cb evs = None) \<and>
         (\<forall>e. status t = Failed e \<longleftrightarrow> first_some cb evs = Some e)"
proof (cases "status t")
  case Succeeded
  with assms(1) obtain pre where "evs = pre @ pending t" "list_all (\<lambda>x. cb x = None) pre"
      "pending t = []"
    by (auto simp: run_inv_def)
  with Succeeded show ?thesis by (simp add: list_all_iff)
next
  case (Failed e)
  with assms(1) obtain pre where evs: "evs = pre @ pending t" and ne: "pre \<noteq> []"
    and ok: "list_all (\<lambda>x. cb x = None) (butlast pre)" and bad: "cb (last pre) = Some e"
    by (auto simp: run_inv_def)
  from ne evs have evs': "evs = butlast pre @ last pre # pending t" by simp
  have "first_some cb (butlast pre @ last pre # pending t) = Some e"
    using ok bad by (intro first_some_SomeI) (simp_all add: list_all_iff)
  with evs' have "first_some cb evs = Some e" by simp
  with Failed show ?thesis by auto
qed (use assms(2) in \<open>auto simp: terminal_def\<close>)

text \<open>
  The spec's run states agree with the result: a run that has reached a terminal
  state is \<open>Succeeded\<close> exactly when no call fails, and \<open>Failed e\<close> exactly when
  \<open>e\<close> is the first failure.
\<close>

theorem enforce_outcome:
  assumes "(enforce_step cb)\<^sup>*\<^sup>* (enforce_init evs) t" and "terminal t"
  shows "(status t = Succeeded \<longleftrightarrow> first_some cb evs = None) \<and>
         (\<forall>e. status t = Failed e \<longleftrightarrow> first_some cb evs = Some e)"
  using run_inv_outcome [OF run_inv_reachable [OF assms(1)] assms(2)] .

text \<open>
  Every run terminates: from the start, the machine reaches \<open>Succeeded\<close> or
  \<open>Failed\<close>.
\<close>

theorem enforce_terminates: "\<exists>t. (enforce_step cb)\<^sup>*\<^sup>* (enforce_init evs) t \<and> terminal t"
proof -
  have "enforce_step cb (enforce_init evs) ((enforce_init evs)\<lparr>status := Walking\<rparr>)"
    by (rule start) (simp add: enforce_init_def)
  moreover obtain t where "(enforce_step cb)\<^sup>*\<^sup>* ((enforce_init evs)\<lparr>status := Walking\<rparr>) t"
      "terminal t"
    using walking_reaches_terminal [of "(enforce_init evs)\<lparr>status := Walking\<rparr>" cb] by auto
  ultimately show ?thesis by (meson converse_rtranclp_into_rtranclp)
qed

text \<open>
  C6. The enforcer refines the spec's state machine: run on the walk's calls with the
  enforcer's callback, a terminal state is \<open>Succeeded\<close> exactly when
  \<open>lintPackageFs\<close> returns \<open>nil\<close>, and \<open>Failed e\<close> exactly when it returns
  \<open>e\<close>.
\<close>

theorem lintPackageFs_state_machine:
  assumes "(enforce_step (case_prod (walkCb Linters lctx linters)))\<^sup>*\<^sup>*
             (enforce_init (walk_events fsys ''.'')) t"
    and "terminal t"
  shows "(status t = Succeeded \<longleftrightarrow> lintPackageFs lctx fsys linters = None) \<and>
         (\<forall>e. status t = Failed e \<longleftrightarrow> lintPackageFs lctx fsys linters = Some e)"
  using run_inv_outcome [OF run_inv_reachable [OF assms(1)] assms(2)]
  by (simp add: lintPackageFs_walk)

section \<open>One check over a whole tree\<close>

lemma single_linter_None_iff:
  fixes lctx :: "('cfg, 'chk) LinterContext"
  assumes "fs_clean fsys" and "(Linters :: go_string \<rightharpoonup> ('cfg, 'chk) Linter) n = Some l"
  shows "lintPackageFs lctx fsys [n] = None \<longleftrightarrow>
           (\<forall>(p, a) \<in> set (walk_events fsys ''.''). \<forall>d. a = WEntry d \<longrightarrow> LinterFunc l lctx p d = None)"
proof -
  have "lintPackageFs lctx fsys [n] = None \<longleftrightarrow>
      (\<forall>(p, a) \<in> set (walk_events fsys ''.''). \<exists>d. a = WEntry d \<and> LinterFunc l lctx p d = None)"
    by (simp add: lintPackageFs_None_conv assms(2))
  then show ?thesis by (simp only: fs_clean_entries_iff [OF assms(1)])
qed

text \<open>
  C15. On a tree that reads without error, \<open>setuidgid\<close> alone passes exactly when
  every entry's \<open>Info()\<close> succeeds with a mode whose setuid and setgid bits are
  clear.
\<close>

theorem setuidgid_tree:
  assumes "fs_clean fsys"
  shows "lintPackageFs lctx fsys [''setuidgid''] = None \<longleftrightarrow>
           (\<forall>(p, a) \<in> set (walk_events fsys ''.''). \<forall>d. a = WEntry d \<longrightarrow>
              (\<exists>m. Info d = Inr m \<and> \<not> bit m 23 \<and> \<not> bit m 22))"
  by (simp only: single_linter_None_iff [OF assms Linters_simps(1)] Linter.simps linter_None_iff)


section \<open>Concrete trees and runs\<close>

definition ctx_foo :: "(unit, unit) LinterContext" where
  "ctx_foo = \<lparr>pkgname = ''foo'', cfg = (), chk = ()\<rparr>"

definition ctx_compat :: "(unit, unit) LinterContext" where
  "ctx_compat = \<lparr>pkgname = ''foo-compat'', cfg = (), chk = ()\<rparr>"

definition dir_node :: "(go_string \<times> fs_tree) list \<Rightarrow> fs_tree" where
  "dir_node ents = FsNode (Inr 493) (Some (None, ents))"

definition file_node :: "FileMode \<Rightarrow> fs_tree" where
  "file_node m = FsNode (Inr m) None"

definition default_linters :: "go_string list" where
  "default_linters = [''setuidgid'', ''tempdir'', ''usrlocal'', ''varempty'']"

definition tree_order :: fs_tree where
  "tree_order = dir_node [(''a-b'', file_node 420), (''a'', dir_node [(''x'', file_node 420)])]"

definition tree_order_setuid :: fs_tree where
  "tree_order_setuid = dir_node [(''a-b'', file_node (ModeSetuid OR 420)),
                                 (''a'', dir_node [(''x'', file_node (ModeSetuid OR 420))])]"

definition tree_usrlocal :: fs_tree where
  "tree_usrlocal = dir_node [(''usr'', dir_node [(''local'', dir_node [(''bin'', file_node 493)])])]"

definition tree_two :: fs_tree where
  "tree_two = dir_node [(''var'', dir_node [(''empty'', dir_node [(''b'', file_node 420)])]),
                        (''tmp'', dir_node [(''a'', file_node 420)])]"

definition tree_setgid_root :: fs_tree where
  "tree_setgid_root = FsNode (Inr (ModeSetgid OR 493)) (Some (None, []))"

lemmas example_defs = dir_node_def file_node_def walk_events_def ReadDir_def entry_of_def
  pathJoin_def default_linters_def ctx_foo_def ctx_compat_def Let_def

lemmas run_defs = lintPackageFs_enforce_spec enforce_spec_def check_outcome_def Linters_simps
  usrLocalLinter_eq varEmptyLinter_eq tempDirLinter_eq isSetUidOrGidLinter_eq

lemma walking_run_succeeds:
  "status s = Walking \<Longrightarrow> list_all (\<lambda>x. cb x = None) (pending s) \<Longrightarrow>
     (enforce_step cb)\<^sup>*\<^sup>* s \<lparr>status = Succeeded, pending = []\<rparr>"
proof (induction "pending s" arbitrary: s)
  case Nil
  then have "enforce_step cb s (s\<lparr>status := Succeeded\<rparr>)" by (auto intro: finish)
  moreover have "s\<lparr>status := Succeeded\<rparr> = \<lparr>status = Succeeded, pending = []\<rparr>"
    using Nil.hyps by simp
  ultimately show ?case by simp
next
  case (Cons ev evs)
  from Cons.prems(1) Cons.hyps(2) [symmetric] have "cb ev = None \<Longrightarrow>
      enforce_step cb s (s\<lparr>pending := evs\<rparr>)"
    by (rule visit_ok)
  moreover have "cb ev = None" using Cons.prems(2) Cons.hyps(2) [symmetric] by simp
  moreover have "(enforce_step cb)\<^sup>*\<^sup>* (s\<lparr>pending := evs\<rparr>) \<lparr>status = Succeeded, pending = []\<rparr>"
    using Cons.hyps(1) [of "s\<lparr>pending := evs\<rparr>"] Cons.prems Cons.hyps(2) [symmetric] by simp
  ultimately show ?case by (meson converse_rtranclp_into_rtranclp)
qed

lemma run_succeeds:
  "list_all (\<lambda>x. cb x = None) evs \<Longrightarrow>
     (enforce_step cb)\<^sup>*\<^sup>* (enforce_init evs) \<lparr>status = Succeeded, pending = []\<rparr>"
proof -
  assume ok: "list_all (\<lambda>x. cb x = None) evs"
  have "enforce_step cb (enforce_init evs) ((enforce_init evs)\<lparr>status := Walking\<rparr>)"
    by (rule start) (simp add: enforce_init_def)
  moreover have "(enforce_step cb)\<^sup>*\<^sup>* ((enforce_init evs)\<lparr>status := Walking\<rparr>)
      \<lparr>status = Succeeded, pending = []\<rparr>"
    using ok by (intro walking_run_succeeds) (simp_all add: enforce_init_def)
  ultimately show ?thesis by (meson converse_rtranclp_into_rtranclp)
qed

lemma terminal_succeeded [simp]: "terminal \<lparr>status = Succeeded, pending = ps\<rparr>"
  by (simp add: terminal_def)

section \<open>Where the code departs from the spec, on concrete trees\<close>

text \<open>
  The walk is depth-first with each directory sorted by name, which is not the
  order of the full paths: with setuid files at \<open>a-b\<close> and \<open>a/x\<close>, the run
  reports \<open>a/x\<close>, although \<open>a-b < a/x\<close> byte-wise.
\<close>

theorem walk_order_example:
  "lintPackageFs ctx_foo tree_order_setuid [''setuidgid''] =
     Some (linter_failed ''setuidgid'' ''a/x'' (Errorf ''File is setuid'')
       ''Unset the setuid/setgid bit on the relevant files, or remove this linter'') \<and>
   ''a-b'' < ''a/x''"
  by (simp add: run_defs tree_order_setuid_def example_defs ModeSetuid_def bit_simps)

text \<open>
  Check names are looked up lazily, entry by entry and in order: with
  \<open>[setuidgid, bogus]\<close> on a tree whose root is setgid, the run fails on
  \<open>setuidgid\<close> and never reports the unknown name.
\<close>

theorem unknown_after_failure_example:
  "lintPackageFs ctx_foo tree_setgid_root [''setuidgid'', ''bogus''] =
     Some (linter_failed ''setuidgid'' ''.'' (Errorf ''File is setgid'')
       ''Unset the setuid/setgid bit on the relevant files, or remove this linter'')"
  by (simp add: run_defs tree_setgid_root_def example_defs ModeSetgid_def bit_simps)

text \<open>
  A tree with nothing but its root directory passes the default checks exactly
  when the root's mode has neither the setuid nor the setgid bit: the root \<open>"."\<close>
  is an entry of the walk and is checked like any other.
\<close>

theorem empty_root_tree:
  "lintPackageFs lctx (FsNode (Inr m) (Some (None, []))) default_linters = None \<longleftrightarrow>
     \<not> bit m 23 \<and> \<not> bit m 22"
  by (simp add: run_defs example_defs)

text \<open>
  The directory \<open>usr/local\<close> itself passes \<open>usrlocal\<close>: its path has no
  trailing slash, so an empty \<open>/usr/local\<close> is accepted.
\<close>

theorem usrlocal_dir_itself_example:
  "lintPackageFs ctx_foo (dir_node [(''usr'', dir_node [(''local'', dir_node [])])]) [''usrlocal''] = None"
  by (simp add: run_defs example_defs)

text \<open>
  With violations at \<open>var/empty/b\<close> and \<open>tmp/a\<close>, the run reports only the
  one the walk meets first (\<open>tmp\<close> sorts before \<open>var\<close>), although the check
  that finds the other is listed first.
\<close>

theorem fail_fast_example:
  "lintPackageFs ctx_foo tree_two [''varempty'', ''tempdir''] =
     Some (linter_failed ''tempdir'' ''tmp/a'' (Errorf ''Package writes to a temp dir'')
       ''Remove any offending files in temporary dirs in the pipeline'')"
  by (simp add: run_defs tree_two_def example_defs)

text \<open>
  An entry whose \<open>Info()\<close> fails is caught only by \<open>setuidgid\<close>, the one check
  that reads the metadata; the path checks pass it.
\<close>

theorem info_error_example:
  "lintPackageFs ctx_foo (dir_node [(''f'', FsNode (Inl (IOErr ''stat f: EIO'')) None)]) [''tempdir''] = None \<and>
   lintPackageFs ctx_foo (dir_node [(''f'', FsNode (Inl (IOErr ''stat f: EIO'')) None)]) [''setuidgid''] =
     Some (linter_failed ''setuidgid'' ''f'' (IOErr ''stat f: EIO'')
       ''Unset the setuid/setgid bit on the relevant files, or remove this linter'')"
  by (simp add: run_defs example_defs bit_simps)

text \<open>
  A directory that cannot be read fails the run with the traversal error wrapped
  with its path, after the checks have passed on the directory's own entry.
\<close>

theorem readdir_error_example:
  "lintPackageFs ctx_foo (FsNode (Inr 493) (Some (Some (IOErr ''EACCES''), []))) [''tempdir''] =
     Some (Wrapf ''Error traversing tree at .: '' (IOErr ''EACCES'') '''')"
  by (simp add: run_defs example_defs)

section \<open>Witnesses: the theorems applied where their hypotheses hold\<close>

theorem lintPackageFs_None_iff_witness:
  "lintPackageFs ctx_foo tree_order default_linters = None"
  by (simp add: lintPackageFs_None_iff Linters_simps linter_None_iff tree_order_def example_defs)

theorem lintPackageFs_fail_fast_witness:
  "\<exists>pre path arg post. walk_events tree_two ''.'' = pre @ (path, arg) # post \<and>
     walkCb Linters ctx_foo [''varempty'', ''tempdir''] path arg =
       Some (linter_failed ''tempdir'' ''tmp/a'' (Errorf ''Package writes to a temp dir'')
         ''Remove any offending files in temporary dirs in the pipeline'')"
proof -
  have "lintPackageFs ctx_foo tree_two [''varempty'', ''tempdir''] =
      Some (linter_failed ''tempdir'' ''tmp/a'' (Errorf ''Package writes to a temp dir'')
         ''Remove any offending files in temporary dirs in the pipeline'')"
    by (simp add: run_defs tree_two_def example_defs)
  from lintPackageFs_fail_fast [OF this] show ?thesis by blast
qed

theorem runLinters_error_report_witness:
  "runLinters Linters ctx_foo [''tempdir''] ''tmp/a'' \<lparr>Name = ''a'', IsDir = False, Info = Inr 420\<rparr> =
     Some (linter_failed ''tempdir'' ''tmp/a'' (Errorf ''Package writes to a temp dir'')
         ''Remove any offending files in temporary dirs in the pipeline'') \<and>
   ((\<exists>n \<in> set [''tempdir'']. (Linters :: go_string \<rightharpoonup> (unit, unit) Linter) n = None \<and> error_text (linter_failed ''tempdir'' ''tmp/a'' (Errorf ''Package writes to a temp dir'')
         ''Remove any offending files in temporary dirs in the pipeline'') = ''Linter '' @ n @ '' is unknown'') \<or>
    (\<exists>n \<in> set [''tempdir'']. \<exists>l err. Linters n = Some l \<and>
       LinterFunc l ctx_foo ''tmp/a'' \<lparr>Name = ''a'', IsDir = False, Info = Inr 420\<rparr> = Some err \<and>
       unwrap (linter_failed ''tempdir'' ''tmp/a'' (Errorf ''Package writes to a temp dir'')
         ''Remove any offending files in temporary dirs in the pipeline'') = Some err \<and> sublist n (error_text (linter_failed ''tempdir'' ''tmp/a'' (Errorf ''Package writes to a temp dir'')
         ''Remove any offending files in temporary dirs in the pipeline'')) \<and>
       sublist ''tmp/a'' (error_text (linter_failed ''tempdir'' ''tmp/a'' (Errorf ''Package writes to a temp dir'')
         ''Remove any offending files in temporary dirs in the pipeline'')) \<and>
       sublist (error_text err) (error_text (linter_failed ''tempdir'' ''tmp/a'' (Errorf ''Package writes to a temp dir'')
         ''Remove any offending files in temporary dirs in the pipeline'')) \<and>
       sublist (Explain l) (error_text (linter_failed ''tempdir'' ''tmp/a'' (Errorf ''Package writes to a temp dir'')
         ''Remove any offending files in temporary dirs in the pipeline''))))"
proof -
  have h: "runLinters Linters ctx_foo [''tempdir''] ''tmp/a'' \<lparr>Name = ''a'', IsDir = False, Info = Inr 420\<rparr> =
     Some (linter_failed ''tempdir'' ''tmp/a'' (Errorf ''Package writes to a temp dir'')
         ''Remove any offending files in temporary dirs in the pipeline'')"
    by (simp add: Linters_simps tempDirLinter_eq linter_failed_def ctx_foo_def)
  show ?thesis by (rule conjI [OF h runLinters_error_report [OF h]])
qed

theorem lintPackageFs_unknown_linter_witness:
  "lintPackageFs ctx_foo tree_order [''bogus''] \<noteq> None"
  by (rule lintPackageFs_unknown_linter [of "''bogus''"]) (simp_all add: Linters_def)

theorem lintPackageFs_state_machine_witness:
  "(enforce_step (case_prod (walkCb Linters ctx_foo default_linters)))\<^sup>*\<^sup>*
      (enforce_init (walk_events tree_order ''.'')) \<lparr>status = Succeeded, pending = []\<rparr> \<and>
   lintPackageFs ctx_foo tree_order default_linters = None"
proof -
  have run: "(enforce_step (case_prod (walkCb Linters ctx_foo default_linters)))\<^sup>*\<^sup>*
      (enforce_init (walk_events tree_order ''.'')) \<lparr>status = Succeeded, pending = []\<rparr>"
    by (rule run_succeeds) (simp add: walkCb_spec run_defs tree_order_def example_defs)
  from lintPackageFs_state_machine [OF run] run show ?thesis by simp
qed

lemma clean_examples: "fs_clean tree_usrlocal" "fs_clean tree_two" "fs_clean tree_order"
  "fs_clean tree_setgid_root"
  by (simp_all add: fs_clean_def tree_usrlocal_def tree_two_def tree_order_def
      tree_setgid_root_def dir_node_def file_node_def)

theorem setuidgid_tree_witness:
  "lintPackageFs ctx_foo tree_setgid_root [''setuidgid''] \<noteq> None \<and>
   lintPackageFs ctx_foo tree_order [''setuidgid''] = None"
  using setuidgid_tree [OF clean_examples(4), of ctx_foo]
    setuidgid_tree [OF clean_examples(3), of ctx_foo]
  by (simp add: tree_setgid_root_def tree_order_def example_defs ModeSetgid_def bit_simps)

lemma wf_examples: "wf_tree tree_usrlocal" "wf_tree tree_two" "wf_tree tree_order"
  by (simp_all add: tree_usrlocal_def tree_two_def tree_order_def dir_node_def file_node_def
      valid_name_def)

lemmas entries_defs = has_entry_inside_def tree_entries_def inside_def ReadDir_def dir_node_def
  file_node_def

theorem usrlocal_contents_witness:
  "has_entry_inside tree_usrlocal [''usr'', ''local''] \<and>
   lintPackageFs ctx_foo tree_usrlocal [''usrlocal''] \<noteq> None"
proof -
  have h: "has_entry_inside tree_usrlocal [''usr'', ''local'']"
    by (simp add: entries_defs tree_usrlocal_def)
  have "\<not> suffix ''-compat'' (pkgname ctx_foo)"
    by (simp add: ctx_foo_def suffix_iff_drop)
  with h show ?thesis
    using usrlocal_contents [OF clean_examples(1) wf_examples(1), of ctx_foo] by simp
qed

theorem tempdir_contents_witness:
  "has_entry_inside tree_two [''tmp''] \<and> lintPackageFs ctx_foo tree_two [''tempdir''] \<noteq> None"
proof -
  have h: "has_entry_inside tree_two [''tmp'']"
    by (simp add: entries_defs tree_two_def)
  with h show ?thesis
    using tempdir_contents [OF clean_examples(2) wf_examples(2), of ctx_foo] by simp
qed

theorem varempty_contents_witness:
  "\<not> has_entry_inside tree_order [''var'', ''empty''] \<and>
   lintPackageFs ctx_foo tree_order [''varempty''] = None"
proof -
  have h: "\<not> has_entry_inside tree_order [''var'', ''empty'']"
    by (simp add: entries_defs tree_order_def)
  with h show ?thesis
    using varempty_contents [OF clean_examples(3) wf_examples(3), of ctx_foo] by simp
qed

theorem lintPackageFs_order_irrelevant_witness:
  "lintPackageFs ctx_foo tree_two [''varempty'', ''tempdir''] \<noteq> None \<and>
   lintPackageFs ctx_foo tree_two [''tempdir'', ''varempty'', ''tempdir''] \<noteq> None"
proof -
  have a: "lintPackageFs ctx_foo tree_two [''varempty'', ''tempdir''] \<noteq> None"
    by (simp add: run_defs tree_two_def example_defs)
  have "set [''varempty'', ''tempdir''] = set [''tempdir'', ''varempty'', ''tempdir'']" by auto
  from lintPackageFs_order_irrelevant [OF this, of ctx_foo tree_two] a show ?thesis by simp
qed

lemma clean_order_setuid: "fs_clean tree_order_setuid"
  by (simp add: fs_clean_def tree_order_setuid_def dir_node_def file_node_def)

theorem setuidgid_after_clear_witness:
  "lintPackageFs ctx_foo tree_order_setuid [''setuidgid''] \<noteq> None \<and>
   lintPackageFs ctx_foo (clear_setid tree_order_setuid) [''setuidgid''] = None"
proof -
  have "lintPackageFs ctx_foo tree_order_setuid [''setuidgid''] \<noteq> None"
    by (simp add: run_defs tree_order_setuid_def example_defs ModeSetuid_def bit_simps)
  moreover have "\<forall>(cs, d) \<in> set (tree_entries tree_order_setuid). \<not> isl (Info d)"
    by (simp add: tree_entries_def tree_order_setuid_def dir_node_def file_node_def
        entry_of_def ReadDir_def)
  ultimately show ?thesis
    using setuidgid_after_clear [OF clean_order_setuid, of ctx_foo] by simp
qed

theorem clear_setid_keeps_other_checks_witness:
  "lintPackageFs ctx_foo (clear_setid tree_two) [''varempty'', ''tempdir''] =
   lintPackageFs ctx_foo tree_two [''varempty'', ''tempdir'']"
  by (rule clear_setid_keeps_other_checks) simp

theorem isSetUidOrGidLinter_mask_witness:
  "isSetUidOrGidLinter ctx_foo ''a'' (\<lparr>Name = ''a'', IsDir = False, Info = Inl (IOErr ''x'')\<rparr>
       \<lparr>Info := Inr (ModeSetuid OR 493)\<rparr>) =
   isSetUidOrGidLinter ctx_foo ''a'' (\<lparr>Name = ''a'', IsDir = False, Info = Inl (IOErr ''x'')\<rparr>
       \<lparr>Info := Inr (ModeSetuid OR 420)\<rparr>)"
proof (rule isSetUidOrGidLinter_mask)
  show "(ModeSetuid OR 493) AND (ModeSetuid OR ModeSetgid) =
      (ModeSetuid OR 420) AND (ModeSetuid OR ModeSetgid :: FileMode)"
    by (rule bit_eqI) (auto simp: bit_simps ModeSetuid_def ModeSetgid_def)
qed

theorem default_checks_contract_witness:
  "has_entry_inside tree_usrlocal [''usr'', ''local''] \<and>
   lintPackageFs ctx_foo tree_usrlocal [''setuidgid'', ''tempdir'', ''usrlocal'', ''varempty''] \<noteq> None"
proof -
  have h: "has_entry_inside tree_usrlocal [''usr'', ''local'']"
    by (simp add: entries_defs tree_usrlocal_def)
  have "\<not> suffix ''-compat'' (pkgname ctx_foo)"
    by (simp add: ctx_foo_def suffix_iff_drop)
  with h show ?thesis
    using default_checks_contract [OF clean_examples(1) wf_examples(1), of ctx_foo] by simp
qed

end
